theory Spec2Isabelle
  imports Complex_Main
begin

unbundle bit_operations_syntax

section \<open>The register map\<close>

text \<open>
  Both device classes start with \<^verbatim>\<open>from ...config.register_map import *\<close>. That module
  is not part of the sources at hand, so the names it provides are collected in one record
  and every function of the model takes the record as its first argument \<open>rm\<close>. Nothing is
  assumed about the values; where a statement needs a property of the map (two addresses
  being different, an address being a key of the default table) it says so.
\<close>

record register_map =
  REG_INTR_STATUS_1 :: int
  REG_FIFO_WR_PTR :: int
  REG_OVF_COUNTER :: int
  REG_FIFO_RD_PTR :: int
  REG_FIFO_DATA :: int
  REG_FIFO_CONFIG :: int
  REG_MODE_CONFIG :: int
  REG_SPO2_CONFIG :: int
  MODE_SPO2 :: int
  SPO2_SR_50 :: int
  SPO2_SR_100 :: int
  SPO2_SR_200 :: int
  SPO2_SR_400 :: int
  SPO2_SR_800 :: int
  SPO2_SR_1000 :: int
  SPO2_SR_1600 :: int
  SPO2_SR_3200 :: int
  DEFAULT_REGISTER_VALUES :: "int \<rightharpoonup> int"

text \<open>
  Modelled from the spec: \<^verbatim>\<open>config/register_map.py\<close> is missing, and the spec only says
  that the registers have "fixed well-known 8-bit addresses". This instance is used where a
  statement is evaluated at a concrete input. Its addresses and sample-rate codes are those
  of the MAX30102 data sheet, every default is 0 except the mode register, which the device
  test expects to hold \<open>MODE_SPO2\<close>; 0x0C and 0x0D are the two LED amplitude registers the
  tests write, and 0xFF is no key, as the device test expects.
\<close>

definition max30102_map :: register_map where
  "max30102_map =
     \<lparr> REG_INTR_STATUS_1 = 0x00, REG_FIFO_WR_PTR = 0x04, REG_OVF_COUNTER = 0x05,
       REG_FIFO_RD_PTR = 0x06, REG_FIFO_DATA = 0x07, REG_FIFO_CONFIG = 0x08,
       REG_MODE_CONFIG = 0x09, REG_SPO2_CONFIG = 0x0A, MODE_SPO2 = 0x03,
       SPO2_SR_50 = 0, SPO2_SR_100 = 1, SPO2_SR_200 = 2, SPO2_SR_400 = 3,
       SPO2_SR_800 = 4, SPO2_SR_1000 = 5, SPO2_SR_1600 = 6, SPO2_SR_3200 = 7,
       DEFAULT_REGISTER_VALUES =
         map_of [(0x00, 0), (0x01, 0), (0x02, 0), (0x03, 0), (0x04, 0), (0x05, 0),
                 (0x06, 0), (0x07, 0), (0x08, 0), (0x09, 0x03), (0x0A, 0),
                 (0x0C, 0), (0x0D, 0)] \<rparr>"

section \<open>The I2C protocol simulator (src/protocols/i2c\_simulator.py)\<close>

subsection \<open>State\<close>

text \<open>
  The attributes of \<^verbatim>\<open>I2CProtocolSimulator\<close>. \<^verbatim>\<open>sample_rate\<close>, \<^verbatim>\<open>averaging_samples\<close> and
  \<^verbatim>\<open>fifo_rollover\<close> do not exist until a handler assigns them (the status report reads
  them with \<^verbatim>\<open>getattr\<close> and a default), hence the options. Registers hold Python
  integers. The logger has no effect on the state and is left out. \<^verbatim>\<open>fifo_size\<close> is
  assigned once, in the constructor, and never again.
\<close>

record i2c_state =
  device_address :: int
  registers :: "int \<rightharpoonup> int"
  fifo_buffer :: "int list list"
  i2c_bus_available :: bool
  communication_delay :: real
  read_operations :: int
  write_operations :: int
  errors :: int
  sample_rate :: "int option"
  averaging_samples :: "int option"
  fifo_rollover :: "bool option"

definition fifo_size :: int where
  "fifo_size = 32"

datatype py_error = KeyError | IndexError | ValueError

text \<open>
  \<^verbatim>\<open>time.sleep(t)\<close> changes no state; all that is kept of it is that it raises
  \<^verbatim>\<open>ValueError\<close> for a negative argument.
\<close>

definition sleep_raises :: "real \<Rightarrow> bool" where
  "sleep_raises t = (t < 0)"

text \<open>
  A Python dict literal looked up with \<^verbatim>\<open>.get(key, default)\<close>. In a literal a later entry
  replaces an earlier one with the same key, so the list is searched from its end.
\<close>

definition dict_get :: "('k \<times> 'v) list \<Rightarrow> 'k \<Rightarrow> 'v \<Rightarrow> 'v" where
  "dict_get kvs k d = (case map_of (rev kvs) k of None \<Rightarrow> d | Some v \<Rightarrow> v)"

subsection \<open>Construction and reset\<close>

definition initialize_device :: "register_map \<Rightarrow> i2c_state \<Rightarrow> i2c_state" where
  "initialize_device rm s =
     s\<lparr> fifo_buffer := [],
        registers := (registers s)(REG_MODE_CONFIG rm \<mapsto> MODE_SPO2 rm,
                                   REG_SPO2_CONFIG rm \<mapsto> 0x27) \<rparr>"

definition I2CProtocolSimulator :: "register_map \<Rightarrow> int \<Rightarrow> i2c_state" where
  "I2CProtocolSimulator rm addr =
     initialize_device rm
       \<lparr> device_address = addr,
         registers = DEFAULT_REGISTER_VALUES rm,
         fifo_buffer = [],
         i2c_bus_available = True,
         communication_delay = 1 / 1000,
         read_operations = 0,
         write_operations = 0,
         errors = 0,
         sample_rate = None,
         averaging_samples = None,
         fifo_rollover = None \<rparr>"

definition handle_device_reset :: "register_map \<Rightarrow> i2c_state \<Rightarrow> i2c_state" where
  "handle_device_reset rm s =
     s\<lparr> registers := DEFAULT_REGISTER_VALUES rm,
        fifo_buffer := [],
        read_operations := 0,
        write_operations := 0,
        errors := 0 \<rparr>"

subsection \<open>Write handlers\<close>

definition handle_mode_config_write :: "register_map \<Rightarrow> int \<Rightarrow> i2c_state \<Rightarrow> i2c_state" where
  "handle_mode_config_write rm v s =
     (if v AND 0x40 \<noteq> 0 then handle_device_reset rm s
      else s\<lparr> registers := (registers s)(REG_MODE_CONFIG rm \<mapsto> v AND 0x8F) \<rparr>)"

definition averaging_map :: "(int \<times> int) list" where
  "averaging_map = [(0, 1), (1, 2), (2, 4), (3, 8), (4, 16), (5, 32)]"

definition handle_fifo_config_write :: "register_map \<Rightarrow> int \<Rightarrow> i2c_state \<Rightarrow> i2c_state" where
  "handle_fifo_config_write rm v s =
     s\<lparr> registers := (registers s)(REG_FIFO_CONFIG rm \<mapsto> v AND 0xFF),
        averaging_samples := Some (dict_get averaging_map (drop_bit 5 v AND 0x07) 1),
        fifo_rollover := Some (v AND 0x10 \<noteq> 0) \<rparr>"

definition sample_rates :: "register_map \<Rightarrow> (int \<times> int) list" where
  "sample_rates rm =
     [(SPO2_SR_50 rm, 50), (SPO2_SR_100 rm, 100), (SPO2_SR_200 rm, 200),
      (SPO2_SR_400 rm, 400), (SPO2_SR_800 rm, 800), (SPO2_SR_1000 rm, 1000),
      (SPO2_SR_1600 rm, 1600), (SPO2_SR_3200 rm, 3200)]"

definition handle_spo2_config_write :: "register_map \<Rightarrow> int \<Rightarrow> i2c_state \<Rightarrow> i2c_state" where
  "handle_spo2_config_write rm v s =
     s\<lparr> registers := (registers s)(REG_SPO2_CONFIG rm \<mapsto> v AND 0xFC),
        sample_rate := Some (dict_get (sample_rates rm) (drop_bit 2 v AND 0x07) 100) \<rparr>"

definition handle_fifo_write_pointer :: "register_map \<Rightarrow> int \<Rightarrow> i2c_state \<Rightarrow> i2c_state" where
  "handle_fifo_write_pointer rm v s =
     s\<lparr> registers := (registers s)(REG_FIFO_WR_PTR rm \<mapsto> v mod (fifo_size * 6)) \<rparr>"

definition handle_fifo_read_pointer :: "register_map \<Rightarrow> int \<Rightarrow> i2c_state \<Rightarrow> i2c_state" where
  "handle_fifo_read_pointer rm v s =
     s\<lparr> registers := (registers s)(REG_FIFO_RD_PTR rm \<mapsto> v mod (fifo_size * 6)) \<rparr>"

subsection \<open>Read handlers\<close>

text \<open>
  \<^verbatim>\<open>_handle_fifo_data_read\<close>. A missing register key raises \<^verbatim>\<open>KeyError\<close>, a record
  shorter than the byte index raises \<^verbatim>\<open>IndexError\<close>; both are raised before the read
  pointer is written, so an error leaves the state as it was. The overflow counter is
  looked up only when the two pointers are equal (\<^verbatim>\<open>and\<close> short-circuits).
\<close>

definition handle_fifo_data_read :: "register_map \<Rightarrow> i2c_state \<Rightarrow> py_error + (int \<times> i2c_state)" where
  "handle_fifo_data_read rm s =
     (if fifo_buffer s = [] then Inr (0x00, s)
      else case registers s (REG_FIFO_RD_PTR rm) of
        None \<Rightarrow> Inl KeyError
      | Some rd_ptr \<Rightarrow>
         (case registers s (REG_FIFO_WR_PTR rm) of
            None \<Rightarrow> Inl KeyError
          | Some wr_ptr \<Rightarrow>
             (case (if rd_ptr = wr_ptr
                    then (case registers s (REG_OVF_COUNTER rm) of
                            None \<Rightarrow> Inl KeyError
                          | Some ovf \<Rightarrow> Inr (ovf = 0))
                    else Inr False) of
                Inl e \<Rightarrow> Inl e
              | Inr True \<Rightarrow> Inr (0x00, s)
              | Inr False \<Rightarrow>
                 (let sample_index = (rd_ptr div 6) mod fifo_size;
                      byte_index = rd_ptr mod 6
                  in if sample_index < int (length (fifo_buffer s))
                     then (if nat byte_index < length (fifo_buffer s ! nat sample_index)
                           then Inr (fifo_buffer s ! nat sample_index ! nat byte_index,
                                     s\<lparr> registers := (registers s)
                                          (REG_FIFO_RD_PTR rm \<mapsto> (rd_ptr + 1) mod (fifo_size * 6)) \<rparr>)
                           else Inl IndexError)
                     else Inr (0x00, s)))))"

definition handle_interrupt_status_read :: "register_map \<Rightarrow> i2c_state \<Rightarrow> py_error + (int \<times> i2c_state)" where
  "handle_interrupt_status_read rm s =
     (case registers s (REG_INTR_STATUS_1 rm) of
        None \<Rightarrow> Inl KeyError
      | Some v \<Rightarrow> Inr (v, s\<lparr> registers := (registers s)(REG_INTR_STATUS_1 rm \<mapsto> 0x00) \<rparr>))"

subsection \<open>Single register access\<close>

text \<open>
  \<^verbatim>\<open>write_register\<close> returns its success flag and the state it leaves. The handlers only
  assign, so the only exception the \<^verbatim>\<open>try\<close> block can catch is the one of
  \<^verbatim>\<open>time.sleep\<close>.
\<close>

definition count_error :: "i2c_state \<Rightarrow> i2c_state" where
  "count_error s = s\<lparr> errors := errors s + 1 \<rparr>"

definition write_register :: "register_map \<Rightarrow> i2c_state \<Rightarrow> int \<Rightarrow> int \<Rightarrow> bool \<times> i2c_state" where
  "write_register rm s register v =
     (if \<not> i2c_bus_available s then (False, count_error s)
      else if registers s register = None then (False, count_error s)
      else if sleep_raises (communication_delay s) then (False, count_error s)
      else
        (let s1 =
           (if register = REG_MODE_CONFIG rm then handle_mode_config_write rm v s
            else if register = REG_FIFO_CONFIG rm then handle_fifo_config_write rm v s
            else if register = REG_FIFO_WR_PTR rm then handle_fifo_write_pointer rm v s
            else if register = REG_FIFO_RD_PTR rm then handle_fifo_read_pointer rm v s
            else if register = REG_SPO2_CONFIG rm then handle_spo2_config_write rm v s
            else s\<lparr> registers := (registers s)(register \<mapsto> v AND 0xFF) \<rparr>)
         in (True, s1\<lparr> write_operations := write_operations s1 + 1 \<rparr>)))"

definition read_register :: "register_map \<Rightarrow> i2c_state \<Rightarrow> int \<Rightarrow> int option \<times> i2c_state" where
  "read_register rm s register =
     (if \<not> i2c_bus_available s then (None, count_error s)
      else case registers s register of
        None \<Rightarrow> (None, count_error s)
      | Some v \<Rightarrow>
         (if sleep_raises (communication_delay s) then (None, count_error s)
          else case (if register = REG_FIFO_DATA rm then handle_fifo_data_read rm s
                     else if register = REG_INTR_STATUS_1 rm then handle_interrupt_status_read rm s
                     else Inr (v, s)) of
                 Inl e \<Rightarrow> (None, count_error s)
               | Inr (v', s1) \<Rightarrow> (Some v', s1\<lparr> read_operations := read_operations s1 + 1 \<rparr>)))"

subsection \<open>Burst access\<close>

text \<open>
  The loop of \<^verbatim>\<open>read_registers_burst\<close> over \<^verbatim>\<open>range(count)\<close>: the list argument holds the
  indices still to visit. An exception of the FIFO read leaves the loop with the state
  reached so far, which is the state the \<^verbatim>\<open>except\<close> clause then works on.
\<close>

fun burst_read_loop ::
  "register_map \<Rightarrow> int \<Rightarrow> int list \<Rightarrow> i2c_state \<Rightarrow> int list \<Rightarrow> (py_error + int list) \<times> i2c_state" where
  "burst_read_loop rm start_register [] s vals = (Inr vals, s)"
| "burst_read_loop rm start_register (i # rest) s vals =
     (let register = start_register + i in
      case registers s register of
        Some v \<Rightarrow>
          (if register = REG_FIFO_DATA rm
           then (case handle_fifo_data_read rm s of
                   Inl e \<Rightarrow> (Inl e, s)
                 | Inr (v', s1) \<Rightarrow> burst_read_loop rm start_register rest s1 (vals @ [v']))
           else burst_read_loop rm start_register rest s (vals @ [v]))
      | None \<Rightarrow> burst_read_loop rm start_register rest s (vals @ [0x00]))"

definition py_range :: "int \<Rightarrow> int list" where
  "py_range n = map int [0..<nat n]"

definition read_registers_burst ::
  "register_map \<Rightarrow> i2c_state \<Rightarrow> int \<Rightarrow> int \<Rightarrow> int list option \<times> i2c_state" where
  "read_registers_burst rm s start_register count =
     (if \<not> i2c_bus_available s then (None, count_error s)
      else if sleep_raises (communication_delay s * of_int count) then (None, count_error s)
      else case burst_read_loop rm start_register (py_range count) s [] of
             (Inl e, s1) \<Rightarrow> (None, count_error s1)
           | (Inr vals, s1) \<Rightarrow> (Some vals, s1\<lparr> read_operations := read_operations s1 + 1 \<rparr>))"

text \<open>
  The loop of \<^verbatim>\<open>write_registers_burst\<close> over \<^verbatim>\<open>enumerate(values)\<close>; \<open>i\<close> is the index of
  the head of the list. The cell is assigned first, then the mode or FIFO handler runs on
  the unmasked value.
\<close>

fun burst_write_loop ::
  "register_map \<Rightarrow> int \<Rightarrow> int \<Rightarrow> int list \<Rightarrow> i2c_state \<Rightarrow> i2c_state" where
  "burst_write_loop rm start_register i [] s = s"
| "burst_write_loop rm start_register i (v # rest) s =
     (let register = start_register + i in
      if registers s register \<noteq> None
      then (let s1 = s\<lparr> registers := (registers s)(register \<mapsto> v AND 0xFF) \<rparr>;
                s2 = (if register = REG_MODE_CONFIG rm then handle_mode_config_write rm v s1
                      else if register = REG_FIFO_CONFIG rm then handle_fifo_config_write rm v s1
                      else s1)
            in burst_write_loop rm start_register (i + 1) rest s2)
      else burst_write_loop rm start_register (i + 1) rest s)"

definition write_registers_burst ::
  "register_map \<Rightarrow> i2c_state \<Rightarrow> int \<Rightarrow> int list \<Rightarrow> bool \<times> i2c_state" where
  "write_registers_burst rm s start_register vals =
     (if \<not> i2c_bus_available s then (False, count_error s)
      else if sleep_raises (communication_delay s * of_nat (length vals)) then (False, count_error s)
      else (let s1 = burst_write_loop rm start_register 0 vals s
            in (True, s1\<lparr> write_operations := write_operations s1 + 1 \<rparr>)))"

subsection \<open>The FIFO\<close>

text \<open>
  \<^verbatim>\<open>_update_fifo_pointers\<close>: the write pointer is assigned first; the FIFO configuration
  and the interrupt status are then read from the updated mapping, and a missing key
  raises \<^verbatim>\<open>KeyError\<close>. \<^verbatim>\<open>~0x10\<close> is \<open>NOT 0x10\<close>.
\<close>

definition update_fifo_pointers :: "register_map \<Rightarrow> i2c_state \<Rightarrow> py_error + i2c_state" where
  "update_fifo_pointers rm s =
     (let samples_in_fifo = int (length (fifo_buffer s));
          regs1 = (registers s)(REG_FIFO_WR_PTR rm \<mapsto> (samples_in_fifo * 6) mod (fifo_size * 6))
      in case regs1 (REG_FIFO_CONFIG rm) of
           None \<Rightarrow> Inl KeyError
         | Some cfg \<Rightarrow>
            (let fifo_almost_full_level = cfg AND 0x0F in
             case regs1 (REG_INTR_STATUS_1 rm) of
               None \<Rightarrow> Inl KeyError
             | Some st \<Rightarrow>
                (if samples_in_fifo \<ge> fifo_almost_full_level
                 then Inr (s\<lparr> registers := regs1(REG_INTR_STATUS_1 rm \<mapsto> st OR 0x10) \<rparr>)
                 else Inr (s\<lparr> registers := regs1(REG_INTR_STATUS_1 rm \<mapsto> st AND NOT 0x10) \<rparr>))))"

text \<open>The three bytes built for one channel in \<^verbatim>\<open>push_sample_to_fifo\<close>.\<close>

definition sample_bytes :: "int \<Rightarrow> int list" where
  "sample_bytes sample =
     [drop_bit 16 sample AND 0x03, drop_bit 8 sample AND 0xFF, sample AND 0xFF]"

definition push_sample_to_fifo :: "register_map \<Rightarrow> i2c_state \<Rightarrow> int \<Rightarrow> int \<Rightarrow> py_error + i2c_state" where
  "push_sample_to_fifo rm s red_sample ir_sample =
     (let sample_data = sample_bytes red_sample @ sample_bytes ir_sample in
      case (if int (length (fifo_buffer s)) \<ge> fifo_size
            then (case registers s (REG_OVF_COUNTER rm) of
                    None \<Rightarrow> Inl KeyError
                  | Some c \<Rightarrow>
                     Inr (s\<lparr> registers := (registers s)(REG_OVF_COUNTER rm \<mapsto> (c + 1) AND 0x1F),
                             fifo_buffer := (if fifo_buffer s \<noteq> [] then tl (fifo_buffer s)
                                             else fifo_buffer s) \<rparr>))
            else Inr s) of
        Inl e \<Rightarrow> Inl e
      | Inr s1 \<Rightarrow>
         (case update_fifo_pointers rm (s1\<lparr> fifo_buffer := fifo_buffer s1 @ [sample_data] \<rparr>) of
            Inl e \<Rightarrow> Inl e
          | Inr s2 \<Rightarrow>
             (if length (fifo_buffer s2) > 0
              then (case registers s2 (REG_INTR_STATUS_1 rm) of
                      None \<Rightarrow> Inl KeyError
                    | Some st \<Rightarrow>
                       Inr (s2\<lparr> registers := (registers s2)(REG_INTR_STATUS_1 rm \<mapsto> st OR 0x10) \<rparr>))
              else Inr s2)))"

text \<open>
  The conversion of one stored record back to a pair in \<^verbatim>\<open>read_fifo_samples\<close>:
  \<open>record_pair\<close> is the pair of the two expressions, \<open>unpack_sample\<close> adds the
  \<^verbatim>\<open>IndexError\<close> that the six subscripts 0 to 5 raise exactly when the record has fewer
  than six entries.
\<close>

definition record_pair :: "int list \<Rightarrow> int \<times> int" where
  "record_pair sample_data =
     (push_bit 16 (sample_data ! 0) OR push_bit 8 (sample_data ! 1) OR sample_data ! 2,
      push_bit 16 (sample_data ! 3) OR push_bit 8 (sample_data ! 4) OR sample_data ! 5)"

definition unpack_sample :: "int list \<Rightarrow> py_error + (int \<times> int)" where
  "unpack_sample sample_data =
     (if length sample_data < 6 then Inl IndexError else Inr (record_pair sample_data))"

text \<open>
  The loop of \<^verbatim>\<open>read_fifo_samples\<close>; the first argument counts the iterations left of
  \<^verbatim>\<open>range(min(sample_count, len(self.fifo_buffer)))\<close>.
\<close>

fun read_fifo_loop ::
  "nat \<Rightarrow> int list list \<Rightarrow> (int \<times> int) list \<Rightarrow> py_error + ((int \<times> int) list \<times> int list list)" where
  "read_fifo_loop 0 buf samples = Inr (samples, buf)"
| "read_fifo_loop (Suc n) buf samples =
     (case buf of
        [] \<Rightarrow> read_fifo_loop n buf samples
      | sample_data # rest \<Rightarrow>
         (case unpack_sample sample_data of
            Inl e \<Rightarrow> Inl e
          | Inr p \<Rightarrow> read_fifo_loop n rest (samples @ [p])))"

definition read_fifo_samples ::
  "register_map \<Rightarrow> i2c_state \<Rightarrow> int \<Rightarrow> py_error + ((int \<times> int) list \<times> i2c_state)" where
  "read_fifo_samples rm s sample_count =
     (case read_fifo_loop (nat (min sample_count (int (length (fifo_buffer s))))) (fifo_buffer s) [] of
        Inl e \<Rightarrow> Inl e
      | Inr (samples, buf) \<Rightarrow>
         (case update_fifo_pointers rm (s\<lparr> fifo_buffer := buf \<rparr>) of
            Inl e \<Rightarrow> Inl e
          | Inr s1 \<Rightarrow> Inr (samples, s1)))"

subsection \<open>Status and settings\<close>

text \<open>
  The dictionary of \<^verbatim>\<open>get_device_status\<close>, without its \<^verbatim>\<open>device_address\<close> entry (a
  formatted string). \<open>power_shutdown\<close> stands for the entry \<^verbatim>\<open>power_state\<close>, true for
  \<^verbatim>\<open>'shutdown'\<close> and false for \<^verbatim>\<open>'active'\<close>.
\<close>

record device_status =
  st_fifo_samples :: int
  st_sample_rate :: int
  st_averaging_samples :: int
  st_fifo_rollover :: bool
  st_read_operations :: int
  st_write_operations :: int
  st_error_count :: int
  st_operating_mode :: int
  st_power_shutdown :: bool

definition get_device_status :: "register_map \<Rightarrow> i2c_state \<Rightarrow> py_error + device_status" where
  "get_device_status rm s =
     (case registers s (REG_MODE_CONFIG rm) of
        None \<Rightarrow> Inl KeyError
      | Some m \<Rightarrow>
         Inr \<lparr> st_fifo_samples = int (length (fifo_buffer s)),
               st_sample_rate = (case sample_rate s of None \<Rightarrow> 100 | Some r \<Rightarrow> r),
               st_averaging_samples = (case averaging_samples s of None \<Rightarrow> 1 | Some a \<Rightarrow> a),
               st_fifo_rollover = (case fifo_rollover s of None \<Rightarrow> True | Some b \<Rightarrow> b),
               st_read_operations = read_operations s,
               st_write_operations = write_operations s,
               st_error_count = errors s,
               st_operating_mode = m AND 0x07,
               st_power_shutdown = (m AND 0x80 \<noteq> 0) \<rparr>)"

definition set_communication_delay :: "i2c_state \<Rightarrow> real \<Rightarrow> i2c_state" where
  "set_communication_delay s delay = s\<lparr> communication_delay := max 0 delay \<rparr>"

definition set_bus_availability :: "i2c_state \<Rightarrow> bool \<Rightarrow> i2c_state" where
  "set_bus_availability s available = s\<lparr> i2c_bus_available := available \<rparr>"

section \<open>The device model (src/simulator/max30102\_device.py)\<close>

text \<open>
  The attributes of \<^verbatim>\<open>MAX30102Device\<close>, prefixed with \<open>dev_\<close>; \<^verbatim>\<open>averaging\<close> and
  \<^verbatim>\<open>fifo_rollover\<close> exist only once the FIFO configuration has been written. Only the
  methods on the path from a register write to \<^verbatim>\<open>get_sample_rate\<close> are modelled.
\<close>

record max30102_device =
  dev_registers :: "int \<rightharpoonup> int"
  dev_fifo_buffer :: "int list list"
  dev_sample_count :: int
  dev_power_on :: bool
  dev_reset_pending :: bool
  dev_averaging :: "int option"
  dev_fifo_rollover :: "bool option"

definition dev_update_fifo_pointers :: "register_map \<Rightarrow> max30102_device \<Rightarrow> py_error + max30102_device" where
  "dev_update_fifo_pointers rm d =
     (let samples_in_fifo = int (length (dev_fifo_buffer d));
          regs1 = (dev_registers d)(REG_FIFO_WR_PTR rm \<mapsto> (samples_in_fifo * 6) mod (fifo_size * 6))
      in case regs1 (REG_INTR_STATUS_1 rm) of
           None \<Rightarrow> Inl KeyError
         | Some st \<Rightarrow>
            (if samples_in_fifo > 0
             then Inr (d\<lparr> dev_registers := regs1(REG_INTR_STATUS_1 rm \<mapsto> st OR 0x10) \<rparr>)
             else Inr (d\<lparr> dev_registers := regs1(REG_INTR_STATUS_1 rm \<mapsto> st AND NOT 0x10) \<rparr>)))"

text \<open>
  The constructor: the attributes as assigned (the temperature, a float that none of the
  modelled methods reads, is left out), then \<^verbatim>\<open>initialize_device\<close>, which only calls
  \<^verbatim>\<open>_update_fifo_pointers\<close>.
\<close>

definition blank_device :: "register_map \<Rightarrow> max30102_device" where
  "blank_device rm =
     \<lparr> dev_registers = DEFAULT_REGISTER_VALUES rm,
       dev_fifo_buffer = [],
       dev_sample_count = 0,
       dev_power_on = True,
       dev_reset_pending = False,
       dev_averaging = None,
       dev_fifo_rollover = None \<rparr>"

definition MAX30102Device :: "register_map \<Rightarrow> py_error + max30102_device" where
  "MAX30102Device rm = dev_update_fifo_pointers rm (blank_device rm)"

definition dev_update_fifo_config :: "int \<Rightarrow> max30102_device \<Rightarrow> max30102_device" where
  "dev_update_fifo_config config d =
     d\<lparr> dev_averaging := Some (dict_get averaging_map (drop_bit 5 config AND 0x07) 1),
        dev_fifo_rollover := Some (config AND 0x10 \<noteq> 0) \<rparr>"

definition dev_handle_reset :: "register_map \<Rightarrow> max30102_device \<Rightarrow> py_error + max30102_device" where
  "dev_handle_reset rm d =
     (case dev_update_fifo_pointers rm
             (d\<lparr> dev_registers := DEFAULT_REGISTER_VALUES rm,
                 dev_fifo_buffer := [],
                 dev_sample_count := 0 \<rparr>) of
        Inl e \<Rightarrow> Inl e
      | Inr d1 \<Rightarrow> Inr (d1\<lparr> dev_reset_pending := True \<rparr>))"

definition dev_write_register ::
  "register_map \<Rightarrow> max30102_device \<Rightarrow> int \<Rightarrow> int \<Rightarrow> py_error + (bool \<times> max30102_device)" where
  "dev_write_register rm d register v =
     (if DEFAULT_REGISTER_VALUES rm register = None then Inr (False, d)
      else if register = REG_MODE_CONFIG rm \<and> v AND 0x40 \<noteq> 0
      then (case dev_handle_reset rm d of Inl e \<Rightarrow> Inl e | Inr d1 \<Rightarrow> Inr (True, d1))
      else
        (let d1 =
           (if register = REG_MODE_CONFIG rm
            then (if v AND 0x80 \<noteq> 0 then d\<lparr> dev_power_on := \<not> (v AND 0x80 \<noteq> 0) \<rparr> else d)
            else if register = REG_FIFO_CONFIG rm then dev_update_fifo_config v d
            else d)
         in Inr (True, d1\<lparr> dev_registers := (dev_registers d1)(register \<mapsto> v AND 0xFF) \<rparr>)))"

definition get_sample_rate :: "register_map \<Rightarrow> max30102_device \<Rightarrow> py_error + int" where
  "get_sample_rate rm d =
     (case dev_registers d (REG_SPO2_CONFIG rm) of
        None \<Rightarrow> Inl KeyError
      | Some spo2_config \<Rightarrow> Inr (dict_get (sample_rates rm) (drop_bit 2 spo2_config AND 0x07) 100))"

section \<open>Well-formed maps and states\<close>

text \<open>
  What the statements below ask of the register map: the eight addresses the simulator
  names are pairwise different and are keys of the default table.
\<close>

definition special_registers :: "register_map \<Rightarrow> int list" where
  "special_registers rm =
     [REG_INTR_STATUS_1 rm, REG_FIFO_WR_PTR rm, REG_OVF_COUNTER rm, REG_FIFO_RD_PTR rm,
      REG_FIFO_DATA rm, REG_FIFO_CONFIG rm, REG_MODE_CONFIG rm, REG_SPO2_CONFIG rm]"

definition register_map_ok :: "register_map \<Rightarrow> bool" where
  "register_map_ok rm =
     (distinct (special_registers rm) \<and>
      list_all (\<lambda>r. DEFAULT_REGISTER_VALUES rm r \<noteq> None) (special_registers rm))"

text \<open>
  The invariant of the simulator's state: the keys of the register mapping are those of
  the default table, every FIFO record has six bytes, the FIFO holds at most
  \<open>fifo_size\<close> records and the communication delay is not negative. The constructor
  establishes it and every method keeps it (lemmas \<open>state_ok_init\<close>,
  \<open>state_ok_write_register\<close>, \<open>state_ok_read_register\<close>,
  \<open>state_ok_read_registers_burst\<close>, \<open>state_ok_write_registers_burst\<close>, \<open>push_state\<close>,
  \<open>read_fifo_samples_state\<close> and the two for the setters).
\<close>

definition state_ok :: "register_map \<Rightarrow> i2c_state \<Rightarrow> bool" where
  "state_ok rm s =
     (dom (registers s) = dom (DEFAULT_REGISTER_VALUES rm) \<and>
      list_all (\<lambda>r. length r = 6) (fifo_buffer s) \<and>
      int (length (fifo_buffer s)) \<le> fifo_size \<and>
      0 \<le> communication_delay s)"

text \<open>A sequence of calls of \<^verbatim>\<open>push_sample_to_fifo\<close>, stopping at the first exception.\<close>

fun push_all :: "register_map \<Rightarrow> i2c_state \<Rightarrow> (int \<times> int) list \<Rightarrow> py_error + i2c_state" where
  "push_all rm s [] = Inr s"
| "push_all rm s ((red, ir) # rest) =
     (case push_sample_to_fifo rm s red ir of
        Inl e \<Rightarrow> Inl e
      | Inr s1 \<Rightarrow> push_all rm s1 rest)"

text \<open>The record \<^verbatim>\<open>push_sample_to_fifo\<close> stores for a pair of samples.\<close>

definition sample_record :: "int \<times> int \<Rightarrow> int list" where
  "sample_record p = sample_bytes (fst p) @ sample_bytes (snd p)"

section \<open>Concrete states\<close>

text \<open>
  States of a simulator built over \<open>max30102_map\<close>, at which the statements below are
  evaluated: freshly constructed; with the bus switched off; after the two LED writes of
  the reset test.
\<close>

definition fresh_state :: i2c_state where
  "fresh_state = I2CProtocolSimulator max30102_map 0x57"

definition offline_state :: i2c_state where
  "offline_state = set_bus_availability fresh_state False"

definition written_state :: i2c_state where
  "written_state =
     snd (write_register max30102_map (snd (write_register max30102_map fresh_state 0x0C 0x30)) 0x0D 0x40)"

text \<open>
  The 37 pairs of the overflow test, the state after the first 32 of them (a full FIFO),
  and the state after writing 0x0F, an almost-full level of 15, to the FIFO configuration
  register, with the result of one push in that state.
\<close>

definition samples37 :: "(int \<times> int) list" where
  "samples37 = map (\<lambda>i. (10000 + int i, 9500 + int i)) [0..<37]"

definition full_state :: i2c_state where
  "full_state =
     (case push_all max30102_map fresh_state (take 32 samples37) of
        Inr s \<Rightarrow> s
      | Inl e \<Rightarrow> fresh_state)"

definition threshold_state :: i2c_state where
  "threshold_state = snd (write_register max30102_map fresh_state 0x08 0x0F)"

definition threshold_pushed :: "py_error + i2c_state" where
  "threshold_pushed = push_sample_to_fifo max30102_map threshold_state 1 1"

text \<open>
  The state after one push of the pair (200000, 9500) into the fresh simulator, and a
  freshly constructed device model.
\<close>

definition one_record_state :: i2c_state where
  "one_record_state =
     (case push_sample_to_fifo max30102_map fresh_state 200000 9500 of
        Inr s \<Rightarrow> s
      | Inl e \<Rightarrow> fresh_state)"

definition fresh_device :: max30102_device where
  "fresh_device =
     (case MAX30102Device max30102_map of
        Inr d \<Rightarrow> d
      | Inl e \<Rightarrow> blank_device max30102_map)"

section \<open>Properties\<close>

subsection \<open>Bit arithmetic on Python integers\<close>

lemma and_1F: "(x::int) AND 0x1F = x mod 32"
proof -
  have "(x::int) AND mask 5 = x mod 2 ^ 5"
    by (simp only: take_bit_eq_mask [symmetric] take_bit_eq_mod)
  then show ?thesis by (simp add: mask_eq_exp_minus_1)
qed

lemma pack3:
  "push_bit 16 (drop_bit 16 (v::int) AND 0x03) OR push_bit 8 (drop_bit 8 v AND 0xFF) OR (v AND 0xFF)
     = take_bit 18 v"
proof -
  have a: "(0x03::int) = mask 2" and b: "(0xFF::int) = mask 8"
    by (simp_all add: mask_eq_exp_minus_1)
  show ?thesis
    unfolding a b
  proof (rule bit_eqI)
    fix n
    show "bit (push_bit 16 (drop_bit 16 v AND mask 2) OR push_bit 8 (drop_bit 8 v AND mask 8) OR (v AND mask 8)) n
        = bit (take_bit 18 v) n"
      by (cases "n < 16") (auto simp add: bit_simps not_less)
  qed
qed

lemma or_10: "((x::int) OR 0x10) AND 0x10 = 0x10"
  by (rule bit_eqI) (auto simp add: bit_simps)

lemma clear_set_10: "((x::int) AND NOT 0x10) OR 0x10 = x OR 0x10"
  by (rule bit_eqI) (auto simp add: bit_simps)

lemma clear_set_10': "((x::int) AND - 17) OR 0x10 = x OR 0x10"
  using clear_set_10 [of x] by simp

lemma set_set_10: "((x::int) OR 0x10) OR 0x10 = x OR 0x10"
  by (rule bit_eqI) (auto simp add: bit_simps)

subsection \<open>The register map and the concrete states\<close>

lemma max30102_map_ok: "register_map_ok max30102_map"
  by (simp add: register_map_ok_def special_registers_def max30102_map_def)

lemma fresh_state_ok: "state_ok max30102_map fresh_state"
  by (auto simp add: fresh_state_def state_ok_def I2CProtocolSimulator_def initialize_device_def
      max30102_map_def fifo_size_def dom_map_of_conv_image_fst)

lemma written_state_eq:
  "written_state = fresh_state\<lparr> registers := (registers fresh_state)(0x0C \<mapsto> 0x30, 0x0D \<mapsto> 0x40),
       write_operations := 2 \<rparr>"
  by (simp add: written_state_def fresh_state_def write_register_def I2CProtocolSimulator_def
      initialize_device_def max30102_map_def sleep_raises_def)

lemma special_distinct:
  assumes "register_map_ok rm"
  shows "distinct [REG_INTR_STATUS_1 rm, REG_FIFO_WR_PTR rm, REG_OVF_COUNTER rm, REG_FIFO_RD_PTR rm,
      REG_FIFO_DATA rm, REG_FIFO_CONFIG rm, REG_MODE_CONFIG rm, REG_SPO2_CONFIG rm]"
  using assms by (simp only: register_map_ok_def special_registers_def)

lemma special_default:
  assumes "register_map_ok rm" and "r \<in> set (special_registers rm)"
  shows "DEFAULT_REGISTER_VALUES rm r \<noteq> None"
  using assms by (simp add: register_map_ok_def list_all_iff)

lemma special_present:
  assumes "register_map_ok rm" and "dom (registers s) = dom (DEFAULT_REGISTER_VALUES rm)"
    and "r \<in> set (special_registers rm)"
  shows "\<exists>v. registers s r = Some v"
proof -
  have "r \<in> dom (DEFAULT_REGISTER_VALUES rm)"
    using special_default [OF assms(1) assms(3)] by (simp add: domIff)
  then have "r \<in> dom (registers s)"
    using assms(2) by simp
  then show ?thesis by (simp add: domIff)
qed

subsection \<open>Pushing into the FIFO\<close>

lemma update_fifo_pointers_eq:
  assumes "register_map_ok rm"
    and "registers s (REG_FIFO_CONFIG rm) = Some cfg"
    and "registers s (REG_INTR_STATUS_1 rm) = Some st"
  shows "update_fifo_pointers rm s =
     Inr (s\<lparr> registers := (registers s)
            (REG_FIFO_WR_PTR rm \<mapsto> (int (length (fifo_buffer s)) * 6) mod (fifo_size * 6),
             REG_INTR_STATUS_1 rm \<mapsto>
               (if int (length (fifo_buffer s)) \<ge> cfg AND 0x0F then st OR 0x10 else st AND NOT 0x10)) \<rparr>)"
proof -
  have d: "REG_FIFO_WR_PTR rm \<noteq> REG_FIFO_CONFIG rm" "REG_FIFO_WR_PTR rm \<noteq> REG_INTR_STATUS_1 rm"
    using special_distinct [OF assms(1)] by auto
  show ?thesis
    using d assms(2,3) by (simp add: update_fifo_pointers_def Let_def)
qed

lemma push_eq:
  assumes "register_map_ok rm"
    and "registers s (REG_FIFO_CONFIG rm) = Some cfg"
    and "registers s (REG_INTR_STATUS_1 rm) = Some st"
    and "registers s (REG_OVF_COUNTER rm) = Some c"
  shows "push_sample_to_fifo rm s red ir =
     Inr (s\<lparr> fifo_buffer :=
               (if int (length (fifo_buffer s)) \<ge> fifo_size \<and> fifo_buffer s \<noteq> []
                then tl (fifo_buffer s) else fifo_buffer s) @ [sample_record (red, ir)],
             registers :=
               (if int (length (fifo_buffer s)) \<ge> fifo_size
                then (registers s)(REG_OVF_COUNTER rm \<mapsto> (c + 1) AND 0x1F) else registers s)
               (REG_FIFO_WR_PTR rm \<mapsto>
                  (int (length ((if int (length (fifo_buffer s)) \<ge> fifo_size \<and> fifo_buffer s \<noteq> []
                     then tl (fifo_buffer s) else fifo_buffer s) @ [sample_record (red, ir)])) * 6)
                  mod (fifo_size * 6),
                REG_INTR_STATUS_1 rm \<mapsto> st OR 0x10) \<rparr>)"
proof -
  have d: "REG_OVF_COUNTER rm \<noteq> REG_FIFO_CONFIG rm" "REG_OVF_COUNTER rm \<noteq> REG_INTR_STATUS_1 rm"
    using special_distinct [OF assms(1)] by auto
  define s1 where "s1 = (if int (length (fifo_buffer s)) \<ge> fifo_size
      then s\<lparr> registers := (registers s)(REG_OVF_COUNTER rm \<mapsto> (c + 1) AND 0x1F),
              fifo_buffer := (if fifo_buffer s \<noteq> [] then tl (fifo_buffer s) else fifo_buffer s) \<rparr>
      else s)"
  define s1a where "s1a = s1\<lparr> fifo_buffer := fifo_buffer s1 @ [sample_record (red, ir)] \<rparr>"
  have cfg1: "registers s1a (REG_FIFO_CONFIG rm) = Some cfg"
    and st1: "registers s1a (REG_INTR_STATUS_1 rm) = Some st"
    using d assms(2,3) by (simp_all add: s1_def s1a_def)
  note u = update_fifo_pointers_eq [OF assms(1) cfg1 st1]
  have p: "push_sample_to_fifo rm s red ir =
      (case update_fifo_pointers rm s1a of
         Inl e \<Rightarrow> Inl e
       | Inr s2 \<Rightarrow>
          (if length (fifo_buffer s2) > 0
           then (case registers s2 (REG_INTR_STATUS_1 rm) of
                   None \<Rightarrow> Inl KeyError
                 | Some st \<Rightarrow> Inr (s2\<lparr> registers := (registers s2)(REG_INTR_STATUS_1 rm \<mapsto> st OR 0x10) \<rparr>))
           else Inr s2))"
    using assms(4) by (simp add: push_sample_to_fifo_def s1_def s1a_def sample_record_def Let_def)
  show ?thesis
    unfolding p u
    by (simp add: s1_def s1a_def clear_set_10' set_set_10)
qed

lemma length_sample_record: "length (sample_record p) = 6"
  by (simp add: sample_record_def sample_bytes_def)

lemma state_ok_keys:
  assumes "register_map_ok rm" and "state_ok rm s"
  obtains st wr ovf rd cfg where
    "registers s (REG_INTR_STATUS_1 rm) = Some st"
    "registers s (REG_FIFO_WR_PTR rm) = Some wr"
    "registers s (REG_OVF_COUNTER rm) = Some ovf"
    "registers s (REG_FIFO_RD_PTR rm) = Some rd"
    "registers s (REG_FIFO_CONFIG rm) = Some cfg"
proof -
  have d: "dom (registers s) = dom (DEFAULT_REGISTER_VALUES rm)"
    using assms(2) by (simp add: state_ok_def)
  have "\<exists>v. registers s (REG_INTR_STATUS_1 rm) = Some v"
    "\<exists>v. registers s (REG_FIFO_WR_PTR rm) = Some v"
    "\<exists>v. registers s (REG_OVF_COUNTER rm) = Some v"
    "\<exists>v. registers s (REG_FIFO_RD_PTR rm) = Some v"
    "\<exists>v. registers s (REG_FIFO_CONFIG rm) = Some v"
    by (rule special_present [OF assms(1) d], simp add: special_registers_def)+
  then show ?thesis using that by blast
qed

lemma push_state:
  assumes "register_map_ok rm" and "state_ok rm s"
  shows "\<exists>s'. push_sample_to_fifo rm s red ir = Inr s'
     \<and> state_ok rm s'
     \<and> fifo_buffer s' =
         (if int (length (fifo_buffer s)) \<ge> fifo_size then tl (fifo_buffer s) else fifo_buffer s)
           @ [sample_record (red, ir)]
     \<and> registers s' (REG_OVF_COUNTER rm) =
         (if int (length (fifo_buffer s)) \<ge> fifo_size
          then map_option (\<lambda>c. (c + 1) mod 32) (registers s (REG_OVF_COUNTER rm))
          else registers s (REG_OVF_COUNTER rm))
     \<and> (\<exists>st. registers s' (REG_INTR_STATUS_1 rm) = Some st \<and> st AND 0x10 = 0x10)
     \<and> registers s' (REG_FIFO_CONFIG rm) = registers s (REG_FIFO_CONFIG rm)
     \<and> i2c_bus_available s' = i2c_bus_available s"
proof -
  obtain st wr ovf rd cfg where k:
    "registers s (REG_INTR_STATUS_1 rm) = Some st"
    "registers s (REG_FIFO_WR_PTR rm) = Some wr"
    "registers s (REG_OVF_COUNTER rm) = Some ovf"
    "registers s (REG_FIFO_RD_PTR rm) = Some rd"
    "registers s (REG_FIFO_CONFIG rm) = Some cfg"
    using state_ok_keys [OF assms] by blast
  have d: "REG_OVF_COUNTER rm \<noteq> REG_FIFO_WR_PTR rm" "REG_OVF_COUNTER rm \<noteq> REG_INTR_STATUS_1 rm"
    "REG_FIFO_WR_PTR rm \<noteq> REG_INTR_STATUS_1 rm" "REG_FIFO_CONFIG rm \<noteq> REG_INTR_STATUS_1 rm"
    "REG_FIFO_CONFIG rm \<noteq> REG_FIFO_WR_PTR rm" "REG_FIFO_CONFIG rm \<noteq> REG_OVF_COUNTER rm"
    using special_distinct [OF assms(1)] by auto
  note e = push_eq [OF assms(1) k(5) k(1) k(3), of red ir]
  have ne: "int (length (fifo_buffer s)) \<ge> fifo_size \<Longrightarrow> fifo_buffer s \<noteq> []"
    by (auto simp add: fifo_size_def)
  have le: "int (length (fifo_buffer s)) \<le> fifo_size" and l6: "list_all (\<lambda>r. length r = 6) (fifo_buffer s)"
    and dm: "dom (registers s) = dom (DEFAULT_REGISTER_VALUES rm)" and dl: "0 \<le> communication_delay s"
    using assms(2) by (simp_all add: state_ok_def)
  have l6': "list_all (\<lambda>r. length r = 6) (tl (fifo_buffer s))"
    using l6 by (cases "fifo_buffer s") simp_all
  have dm': "dom ((registers s)(REG_OVF_COUNTER rm \<mapsto> a, REG_FIFO_WR_PTR rm \<mapsto> b, REG_INTR_STATUS_1 rm \<mapsto> c))
      = dom (DEFAULT_REGISTER_VALUES rm)" 
    "dom ((registers s)(REG_FIFO_WR_PTR rm \<mapsto> b, REG_INTR_STATUS_1 rm \<mapsto> c))
      = dom (DEFAULT_REGISTER_VALUES rm)" for a b c
    using k dm by (auto simp add: domIff)
  show ?thesis
    unfolding e
    using ne le l6 l6' dl d k dm'
    by (auto simp add: state_ok_def length_sample_record and_1F or_10 fifo_size_def simp del: dom_fun_upd)
qed

lemma push_all_state:
  assumes "register_map_ok rm" and "state_ok rm s" and "registers s (REG_OVF_COUNTER rm) = Some c"
  shows "\<exists>s'. push_all rm s ps = Inr s'
     \<and> state_ok rm s'
     \<and> fifo_buffer s' =
          drop (length (fifo_buffer s) + length ps - 32) (fifo_buffer s @ map sample_record ps)
     \<and> registers s' (REG_OVF_COUNTER rm) =
          Some (if length (fifo_buffer s) + length ps \<le> 32 then c
                else (c + int (length (fifo_buffer s) + length ps - 32)) mod 32)"
  using assms(2,3)
proof (induction ps arbitrary: s c)
  case Nil
  then have "length (fifo_buffer s) \<le> 32"
    by (simp add: state_ok_def fifo_size_def)
  with Nil show ?case by simp
next
  case (Cons p ps)
  obtain red ir where p: "p = (red, ir)" by (cases p)
  have le: "length (fifo_buffer s) \<le> 32"
    using Cons.prems(1) by (simp add: state_ok_def fifo_size_def)
  obtain s1 where s1: "push_sample_to_fifo rm s red ir = Inr s1" "state_ok rm s1"
    "fifo_buffer s1 =
         (if int (length (fifo_buffer s)) \<ge> fifo_size then tl (fifo_buffer s) else fifo_buffer s)
           @ [sample_record (red, ir)]"
    "registers s1 (REG_OVF_COUNTER rm) =
         (if int (length (fifo_buffer s)) \<ge> fifo_size
          then map_option (\<lambda>c. (c + 1) mod 32) (registers s (REG_OVF_COUNTER rm))
          else registers s (REG_OVF_COUNTER rm))"
    using push_state [OF assms(1) Cons.prems(1), of red ir] by blast
  show ?case
  proof (cases "length (fifo_buffer s) = 32")
    case True
    then have ne: "fifo_buffer s \<noteq> []" by auto
    have b1: "fifo_buffer s1 = tl (fifo_buffer s) @ [sample_record p]"
      and c1: "registers s1 (REG_OVF_COUNTER rm) = Some ((c + 1) mod 32)"
      using s1(3,4) True Cons.prems(2) by (simp_all add: fifo_size_def p)
    have l1: "length (fifo_buffer s1) = 32"
      using b1 True by simp
    obtain s' where s': "push_all rm s1 ps = Inr s'" "state_ok rm s'"
      "fifo_buffer s' = drop (length (fifo_buffer s1) + length ps - 32) (fifo_buffer s1 @ map sample_record ps)"
      "registers s' (REG_OVF_COUNTER rm) =
          Some (if length (fifo_buffer s1) + length ps \<le> 32 then (c + 1) mod 32
                else ((c + 1) mod 32 + int (length (fifo_buffer s1) + length ps - 32)) mod 32)"
      using Cons.IH [OF s1(2) c1] by blast
    have f: "fifo_buffer s' = drop (length (fifo_buffer s) + length (p # ps) - 32)
        (fifo_buffer s @ map sample_record (p # ps))"
      using s'(3) l1 True b1 ne by (cases "fifo_buffer s") simp_all
    have o: "registers s' (REG_OVF_COUNTER rm) =
          Some (if length (fifo_buffer s) + length (p # ps) \<le> 32 then c
                else (c + int (length (fifo_buffer s) + length (p # ps) - 32)) mod 32)"
      using s'(4) l1 True by (auto simp add: mod_simps algebra_simps)
    show ?thesis
      using s1(1) s'(1,2) f o by (simp add: p)
  next
    case False
    with le have lt: "length (fifo_buffer s) < 32" by simp
    have b1: "fifo_buffer s1 = fifo_buffer s @ [sample_record p]"
      and c1: "registers s1 (REG_OVF_COUNTER rm) = Some c"
      using s1(3,4) lt Cons.prems(2) by (simp_all add: fifo_size_def p)
    obtain s' where s': "push_all rm s1 ps = Inr s'" "state_ok rm s'"
      "fifo_buffer s' = drop (length (fifo_buffer s1) + length ps - 32) (fifo_buffer s1 @ map sample_record ps)"
      "registers s' (REG_OVF_COUNTER rm) =
          Some (if length (fifo_buffer s1) + length ps \<le> 32 then c
                else (c + int (length (fifo_buffer s1) + length ps - 32)) mod 32)"
      using Cons.IH [OF s1(2) c1] by blast
    show ?thesis
      using s1(1) s' b1 by (simp add: p)
  qed
qed

subsection \<open>Reading records back\<close>

lemma record_pair_six:
  "record_pair [a, b, c, d, e, f] = (push_bit 16 a OR push_bit 8 b OR c, push_bit 16 d OR push_bit 8 e OR f)"
  by (simp add: record_pair_def)

lemma record_pair_sample_record:
  "record_pair (sample_record (red, ir)) = (take_bit 18 red, take_bit 18 ir)"
  unfolding sample_record_def sample_bytes_def
  by (simp only: fst_conv snd_conv append_Cons append_Nil record_pair_six pack3)

lemma unpack_sample_record:
  "unpack_sample (sample_record (red, ir)) = Inr (take_bit 18 red, take_bit 18 ir)"
  by (simp add: unpack_sample_def length_sample_record record_pair_sample_record)

lemma read_fifo_loop_eq:
  assumes "list_all (\<lambda>r. length r = 6) buf"
  shows "read_fifo_loop n buf acc = Inr (acc @ map record_pair (take n buf), drop n buf)"
  using assms
proof (induction n arbitrary: buf acc)
  case 0
  show ?case by simp
next
  case (Suc n)
  show ?case
  proof (cases buf)
    case Nil
    then show ?thesis using Suc.IH [of "[]" acc] by simp
  next
    case (Cons r rest)
    with Suc.prems have r: "length r = 6" and rest: "list_all (\<lambda>r. length r = 6) rest"
      by simp_all
    show ?thesis
      using Suc.IH [OF rest, of "acc @ [record_pair r]"] r
      by (simp add: Cons unpack_sample_def)
  qed
qed

lemma read_fifo_samples_state:
  assumes "register_map_ok rm" and "state_ok rm s"
  shows "\<exists>s'. read_fifo_samples rm s sample_count =
         Inr (map record_pair (take (nat (min sample_count (int (length (fifo_buffer s))))) (fifo_buffer s)), s')
     \<and> fifo_buffer s' = drop (nat (min sample_count (int (length (fifo_buffer s))))) (fifo_buffer s)
     \<and> state_ok rm s'"
proof -
  obtain st wr ovf rd cfg where k:
    "registers s (REG_INTR_STATUS_1 rm) = Some st"
    "registers s (REG_FIFO_WR_PTR rm) = Some wr"
    "registers s (REG_OVF_COUNTER rm) = Some ovf"
    "registers s (REG_FIFO_RD_PTR rm) = Some rd"
    "registers s (REG_FIFO_CONFIG rm) = Some cfg"
    using state_ok_keys [OF assms] by blast
  have le: "int (length (fifo_buffer s)) \<le> fifo_size" and l6: "list_all (\<lambda>r. length r = 6) (fifo_buffer s)"
    and dm: "dom (registers s) = dom (DEFAULT_REGISTER_VALUES rm)" and dl: "0 \<le> communication_delay s"
    using assms(2) by (simp_all add: state_ok_def)
  let ?n = "nat (min sample_count (int (length (fifo_buffer s))))"
  define s0 where "s0 = s\<lparr> fifo_buffer := drop ?n (fifo_buffer s) \<rparr>"
  have k0: "registers s0 (REG_FIFO_CONFIG rm) = Some cfg" "registers s0 (REG_INTR_STATUS_1 rm) = Some st"
    using k by (simp_all add: s0_def)
  note u = update_fifo_pointers_eq [OF assms(1) k0]
  have dm': "dom ((registers s)(REG_FIFO_WR_PTR rm \<mapsto> b, REG_INTR_STATUS_1 rm \<mapsto> c))
      = dom (DEFAULT_REGISTER_VALUES rm)" for b c
    using k dm by (auto simp add: domIff)
  have l6': "list_all (\<lambda>r. length r = 6) (drop ?n (fifo_buffer s))"
    using l6 by (auto simp add: list_all_iff dest: in_set_dropD)
  have "read_fifo_samples rm s sample_count =
      (case update_fifo_pointers rm s0 of Inl e \<Rightarrow> Inl e
       | Inr s1 \<Rightarrow> Inr (map record_pair (take ?n (fifo_buffer s)), s1))"
    by (simp add: read_fifo_samples_def read_fifo_loop_eq [OF l6] s0_def)
  moreover have "int (length (drop ?n (fifo_buffer s))) \<le> fifo_size"
  proof -
    have "length (drop ?n (fifo_buffer s)) \<le> length (fifo_buffer s)" by simp
    then have "int (length (drop ?n (fifo_buffer s))) \<le> int (length (fifo_buffer s))"
      by (simp only: of_nat_le_iff)
    with le show ?thesis by linarith
  qed
  ultimately show ?thesis
    unfolding u
    using l6' dl dm'
    by (simp add: s0_def state_ok_def del: dom_fun_upd length_drop)
qed

subsection \<open>Facts about the concrete states\<close>

lemma fresh_state_fields:
  "fifo_buffer fresh_state = []"
  "i2c_bus_available fresh_state"
  "communication_delay fresh_state = 1 / 1000"
  "read_operations fresh_state = 0"
  "write_operations fresh_state = 0"
  "errors fresh_state = 0"
  "registers fresh_state 0x00 = Some 0"
  "registers fresh_state 0x04 = Some 0"
  "registers fresh_state 0x05 = Some 0"
  "registers fresh_state 0x06 = Some 0"
  "registers fresh_state 0x07 = Some 0"
  "registers fresh_state 0x08 = Some 0"
  "registers fresh_state 0x09 = Some 3"
  "registers fresh_state 0x0A = Some 0x27"
  "registers fresh_state 0x0B = None"
  "registers fresh_state 0x0C = Some 0"
  by (simp_all add: fresh_state_def I2CProtocolSimulator_def initialize_device_def max30102_map_def)

lemma max30102_map_fields:
  "REG_INTR_STATUS_1 max30102_map = 0x00" "REG_FIFO_WR_PTR max30102_map = 0x04"
  "REG_OVF_COUNTER max30102_map = 0x05" "REG_FIFO_RD_PTR max30102_map = 0x06"
  "REG_FIFO_DATA max30102_map = 0x07" "REG_FIFO_CONFIG max30102_map = 0x08"
  "REG_MODE_CONFIG max30102_map = 0x09" "REG_SPO2_CONFIG max30102_map = 0x0A"
  by (simp_all add: max30102_map_def)

lemma full_state_props:
  "push_all max30102_map fresh_state (take 32 samples37) = Inr full_state"
  "state_ok max30102_map full_state"
  "fifo_buffer full_state = map sample_record (take 32 samples37)"
  "registers full_state 0x05 = Some 0"
proof -
  have c: "registers fresh_state (REG_OVF_COUNTER max30102_map) = Some 0"
    by (simp add: fresh_state_fields max30102_map_fields)
  have l: "length (take 32 samples37) = 32"
    by (simp add: samples37_def)
  obtain s' where s': "push_all max30102_map fresh_state (take 32 samples37) = Inr s'"
    "state_ok max30102_map s'"
    "fifo_buffer s' = drop (length (fifo_buffer fresh_state) + length (take 32 samples37) - 32)
        (fifo_buffer fresh_state @ map sample_record (take 32 samples37))"
    "registers s' (REG_OVF_COUNTER max30102_map) =
        Some (if length (fifo_buffer fresh_state) + length (take 32 samples37) \<le> 32 then 0
              else (0 + int (length (fifo_buffer fresh_state) + length (take 32 samples37) - 32)) mod 32)"
    using push_all_state [OF max30102_map_ok fresh_state_ok c, of "take 32 samples37"] by blast
  have f: "full_state = s'"
    by (simp add: full_state_def s'(1))
  show "push_all max30102_map fresh_state (take 32 samples37) = Inr full_state"
    using s'(1) f by simp
  show "state_ok max30102_map full_state"
    using s'(2) f by simp
  show "fifo_buffer full_state = map sample_record (take 32 samples37)"
    using s'(3) f l by (simp add: fresh_state_fields)
  show "registers full_state 0x05 = Some 0"
    using s'(4) f l by (simp add: fresh_state_fields max30102_map_fields)
qed

lemma take_bit_18_bounds: "0 \<le> take_bit 18 (v::int)" "take_bit 18 (v::int) < 2 ^ 18"
  by (simp, rule take_bit_int_less_exp)

lemma take_bit_18_id: "0 \<le> (v::int) \<Longrightarrow> v < 2 ^ 18 \<Longrightarrow> take_bit 18 v = v"
  by (simp add: take_bit_int_eq_self)

lemma record_pair_sample_record':
  "record_pair (sample_record p) = (take_bit 18 (fst p), take_bit 18 (snd p))"
  by (cases p) (simp add: record_pair_sample_record)

lemma get_device_status_fifo_samples:
  assumes "register_map_ok rm" and "state_ok rm s"
  shows "\<exists>st. get_device_status rm s = Inr st \<and> st_fifo_samples st = int (length (fifo_buffer s))"
proof -
  have d: "dom (registers s) = dom (DEFAULT_REGISTER_VALUES rm)"
    using assms(2) by (simp add: state_ok_def)
  obtain m where "registers s (REG_MODE_CONFIG rm) = Some m"
    using special_present [OF assms(1) d, of "REG_MODE_CONFIG rm"]
    by (auto simp add: special_registers_def)
  then show ?thesis
    by (simp add: get_device_status_def)
qed

subsection \<open>The invariant is established and kept\<close>

lemma state_ok_upd:
  assumes "state_ok rm s" and "registers s r \<noteq> None"
  shows "state_ok rm (s\<lparr> registers := (registers s)(r \<mapsto> x) \<rparr>)"
proof -
  have "r \<in> dom (registers s)"
    using assms(2) by (simp add: domIff)
  then have "insert r (dom (registers s)) = dom (registers s)"
    by (rule insert_absorb)
  then show ?thesis
    using assms(1) by (simp add: state_ok_def)
qed

lemma state_ok_init:
  assumes "register_map_ok rm"
  shows "state_ok rm (I2CProtocolSimulator rm addr)"
proof -
  have "DEFAULT_REGISTER_VALUES rm (REG_MODE_CONFIG rm) \<noteq> None"
    "DEFAULT_REGISTER_VALUES rm (REG_SPO2_CONFIG rm) \<noteq> None"
    by (rule special_default [OF assms], simp add: special_registers_def)+
  then have "REG_MODE_CONFIG rm \<in> dom (DEFAULT_REGISTER_VALUES rm)"
    "REG_SPO2_CONFIG rm \<in> dom (DEFAULT_REGISTER_VALUES rm)"
    by (simp_all add: domIff)
  then show ?thesis
    by (simp add: state_ok_def I2CProtocolSimulator_def initialize_device_def fifo_size_def insert_absorb)
qed

lemma state_ok_reset:
  assumes "state_ok rm s"
  shows "state_ok rm (handle_device_reset rm s)"
  using assms by (simp add: state_ok_def handle_device_reset_def fifo_size_def)

lemma state_ok_count_error: "state_ok rm s \<Longrightarrow> state_ok rm (count_error s)"
  by (simp add: state_ok_def count_error_def)

lemma state_ok_regs:
  assumes "state_ok rm s" and "registers s r \<noteq> None"
    and "registers s' = (registers s)(r \<mapsto> x)"
    and "fifo_buffer s' = fifo_buffer s"
    and "communication_delay s' = communication_delay s"
  shows "state_ok rm s'"
proof -
  have "state_ok rm (s\<lparr> registers := (registers s)(r \<mapsto> x) \<rparr>)"
    by (rule state_ok_upd [OF assms(1,2)])
  then show ?thesis
    using assms(3,4,5) by (simp add: state_ok_def)
qed

lemma state_ok_mode_config_write:
  assumes "state_ok rm s" and "registers s (REG_MODE_CONFIG rm) \<noteq> None"
  shows "state_ok rm (handle_mode_config_write rm v s)"
proof (cases "v AND 0x40 \<noteq> 0")
  case True
  then show ?thesis
    using state_ok_reset [OF assms(1)] by (simp add: handle_mode_config_write_def)
next
  case False
  then have "handle_mode_config_write rm v s =
      s\<lparr> registers := (registers s)(REG_MODE_CONFIG rm \<mapsto> v AND 0x8F) \<rparr>"
    by (simp add: handle_mode_config_write_def)
  then show ?thesis
    using state_ok_upd [OF assms] by simp
qed

lemma state_ok_fifo_config_write:
  assumes "state_ok rm s" and "registers s (REG_FIFO_CONFIG rm) \<noteq> None"
  shows "state_ok rm (handle_fifo_config_write rm v s)"
  by (rule state_ok_regs [OF assms]) (simp_all add: handle_fifo_config_write_def)

lemma state_ok_spo2_config_write:
  assumes "state_ok rm s" and "registers s (REG_SPO2_CONFIG rm) \<noteq> None"
  shows "state_ok rm (handle_spo2_config_write rm v s)"
  by (rule state_ok_regs [OF assms]) (simp_all add: handle_spo2_config_write_def)

lemma state_ok_fifo_write_pointer:
  assumes "state_ok rm s" and "registers s (REG_FIFO_WR_PTR rm) \<noteq> None"
  shows "state_ok rm (handle_fifo_write_pointer rm v s)"
  by (rule state_ok_regs [OF assms]) (simp_all add: handle_fifo_write_pointer_def)

lemma state_ok_fifo_read_pointer:
  assumes "state_ok rm s" and "registers s (REG_FIFO_RD_PTR rm) \<noteq> None"
  shows "state_ok rm (handle_fifo_read_pointer rm v s)"
  by (rule state_ok_regs [OF assms]) (simp_all add: handle_fifo_read_pointer_def)

lemma state_ok_write_register:
  assumes "state_ok rm s"
  shows "state_ok rm (snd (write_register rm s register v))"
proof (cases "registers s register")
  case None
  then show ?thesis
    using state_ok_count_error [OF assms] by (simp add: write_register_def)
next
  case (Some y)
  then have p: "registers s register \<noteq> None" by simp
  define s1 where "s1 =
           (if register = REG_MODE_CONFIG rm then handle_mode_config_write rm v s
            else if register = REG_FIFO_CONFIG rm then handle_fifo_config_write rm v s
            else if register = REG_FIFO_WR_PTR rm then handle_fifo_write_pointer rm v s
            else if register = REG_FIFO_RD_PTR rm then handle_fifo_read_pointer rm v s
            else if register = REG_SPO2_CONFIG rm then handle_spo2_config_write rm v s
            else s\<lparr> registers := (registers s)(register \<mapsto> v AND 0xFF) \<rparr>)"
  have "state_ok rm s1"
  proof (cases "register = REG_MODE_CONFIG rm")
    case True
    with p have "registers s (REG_MODE_CONFIG rm) \<noteq> None" by simp
    then show ?thesis
      using True state_ok_mode_config_write [OF assms, of v] by (simp add: s1_def)
  next
    case n1: False
    show ?thesis
    proof (cases "register = REG_FIFO_CONFIG rm")
      case True
      with p have "registers s (REG_FIFO_CONFIG rm) \<noteq> None" by simp
      then show ?thesis
        using n1 True state_ok_fifo_config_write [OF assms, of v] by (simp add: s1_def)
    next
      case n2: False
      show ?thesis
      proof (cases "register = REG_FIFO_WR_PTR rm")
        case True
        with p have "registers s (REG_FIFO_WR_PTR rm) \<noteq> None" by simp
        then show ?thesis
          using n1 n2 True state_ok_fifo_write_pointer [OF assms, of v] by (simp add: s1_def)
      next
        case n3: False
        show ?thesis
        proof (cases "register = REG_FIFO_RD_PTR rm")
          case True
          with p have "registers s (REG_FIFO_RD_PTR rm) \<noteq> None" by simp
          then show ?thesis
            using n1 n2 n3 True state_ok_fifo_read_pointer [OF assms, of v] by (simp add: s1_def)
        next
          case n4: False
          show ?thesis
          proof (cases "register = REG_SPO2_CONFIG rm")
            case True
            with p have "registers s (REG_SPO2_CONFIG rm) \<noteq> None" by simp
            then show ?thesis
              using n1 n2 n3 n4 True state_ok_spo2_config_write [OF assms, of v] by (simp add: s1_def)
          next
            case False
            then show ?thesis
              using n1 n2 n3 n4 state_ok_upd [OF assms p] by (simp add: s1_def)
          qed
        qed
      qed
    qed
  qed
  then have ok1: "state_ok rm (s1\<lparr> write_operations := write_operations s1 + 1 \<rparr>)"
    by (simp add: state_ok_def)
  have w: "write_register rm s register v =
     (if \<not> i2c_bus_available s then (False, count_error s)
      else if sleep_raises (communication_delay s) then (False, count_error s)
      else (True, s1\<lparr> write_operations := write_operations s1 + 1 \<rparr>))"
    unfolding write_register_def s1_def Let_def using Some by simp
  show ?thesis
    unfolding w using ok1 state_ok_count_error [OF assms] by simp
qed

lemma handle_fifo_data_read_cases:
  "(\<exists>e. handle_fifo_data_read rm s = Inl e)
   \<or> (handle_fifo_data_read rm s = Inr (0, s))
   \<or> (\<exists>v rd. registers s (REG_FIFO_RD_PTR rm) = Some rd
         \<and> handle_fifo_data_read rm s =
             Inr (v, s\<lparr> registers := (registers s)(REG_FIFO_RD_PTR rm \<mapsto> (rd + 1) mod (fifo_size * 6)) \<rparr>))"
  by (auto simp add: handle_fifo_data_read_def Let_def split: option.splits sum.splits bool.splits)

lemma state_ok_fifo_data_read:
  assumes "state_ok rm s" and "handle_fifo_data_read rm s = Inr (v, s')"
  shows "state_ok rm s'"
  using handle_fifo_data_read_cases [of rm s] assms state_ok_upd [OF assms(1), of "REG_FIFO_RD_PTR rm"]
  by auto

lemma state_ok_interrupt_status_read:
  assumes "state_ok rm s" and "handle_interrupt_status_read rm s = Inr (v, s')"
  shows "state_ok rm s'"
  using assms state_ok_upd [OF assms(1), of "REG_INTR_STATUS_1 rm"]
  by (auto simp add: handle_interrupt_status_read_def split: option.splits)

lemma state_ok_read_register:
  assumes "state_ok rm s"
  shows "state_ok rm (snd (read_register rm s register))"
proof -
  have a: "state_ok rm (s1\<lparr> read_operations := read_operations s1 + 1 \<rparr>)" if "state_ok rm s1" for s1
    using that by (simp add: state_ok_def)
  show ?thesis
    using state_ok_count_error [OF assms] a [OF assms]
      state_ok_fifo_data_read [OF assms, THEN a] state_ok_interrupt_status_read [OF assms, THEN a]
    by (auto simp add: read_register_def split: option.splits sum.splits)
qed

subsection \<open>Burst access keeps the invariant\<close>

lemma fifo_data_read_ok:
  assumes "register_map_ok rm" and "state_ok rm s"
  shows "\<exists>v s'. handle_fifo_data_read rm s = Inr (v, s') \<and> state_ok rm s'
     \<and> (\<forall>a. (registers s' a = None) = (registers s a = None))"
proof -
  obtain st wr ovf rd cfg where k:
    "registers s (REG_INTR_STATUS_1 rm) = Some st"
    "registers s (REG_FIFO_WR_PTR rm) = Some wr"
    "registers s (REG_OVF_COUNTER rm) = Some ovf"
    "registers s (REG_FIFO_RD_PTR rm) = Some rd"
    "registers s (REG_FIFO_CONFIG rm) = Some cfg"
    using state_ok_keys [OF assms] by blast
  have l6: "list_all (\<lambda>r. length r = 6) (fifo_buffer s)"
    using assms(2) by (simp add: state_ok_def)
  have six: "length (fifo_buffer s ! n) = 6" if "n < length (fifo_buffer s)" for n
    using l6 that by (simp add: list_all_length)
  have bi: "nat (rd mod 6) < 6" by simp
  have nn: "0 \<le> (rd div 6) mod fifo_size" by (simp add: fifo_size_def)
  have idx: "nat ((rd div 6) mod fifo_size) < length (fifo_buffer s)"
    if "(rd div 6) mod fifo_size < int (length (fifo_buffer s))"
    using that nn by linarith
  have noraise: "\<not> (\<exists>e. handle_fifo_data_read rm s = Inl e)"
    using k six idx bi
    by (auto simp add: handle_fifo_data_read_def Let_def split: if_splits bool.splits)
  have same: "\<forall>a. (((registers s)(REG_FIFO_RD_PTR rm \<mapsto> x)) a = None) = (registers s a = None)" for x
    using k(4) by simp
  from handle_fifo_data_read_cases [of rm s] noraise
  consider "handle_fifo_data_read rm s = Inr (0, s)"
    | v rd' where "registers s (REG_FIFO_RD_PTR rm) = Some rd'"
       "handle_fifo_data_read rm s =
             Inr (v, s\<lparr> registers := (registers s)(REG_FIFO_RD_PTR rm \<mapsto> (rd' + 1) mod (fifo_size * 6)) \<rparr>)"
    by blast
  then show ?thesis
  proof cases
    case 1
    then show ?thesis using assms(2) by simp
  next
    case 2
    have "state_ok rm (s\<lparr> registers := (registers s)(REG_FIFO_RD_PTR rm \<mapsto> (rd' + 1) mod (fifo_size * 6)) \<rparr>)"
      by (rule state_ok_upd [OF assms(2)]) (simp add: k(4))
    then show ?thesis
      using 2(2) same by simp
  qed
qed

lemma burst_read_loop_ok:
  assumes "register_map_ok rm" and "state_ok rm s"
  shows "\<exists>vals' s'. burst_read_loop rm start idxs s vals = (Inr vals', s')
     \<and> state_ok rm s'
     \<and> (\<forall>a. (registers s' a = None) = (registers s a = None))
     \<and> length vals' = length vals + length idxs
     \<and> take (length vals) vals' = vals
     \<and> (\<forall>j < length idxs. registers s (start + idxs ! j) = None \<longrightarrow> vals' ! (length vals + j) = 0)"
  using assms(2)
proof (induction idxs arbitrary: s vals)
  case Nil
  then show ?case by simp
next
  case (Cons i rest)
  define v where "v = (case registers s (start + i) of
      None \<Rightarrow> 0
    | Some x \<Rightarrow> if start + i = REG_FIFO_DATA rm
                 then fst (projr (handle_fifo_data_read rm s)) else x)"
  define s1 where "s1 = (case registers s (start + i) of
      None \<Rightarrow> s
    | Some x \<Rightarrow> if start + i = REG_FIFO_DATA rm
                 then snd (projr (handle_fifo_data_read rm s)) else s)"
  obtain b sb where r: "handle_fifo_data_read rm s = Inr (b, sb)" "state_ok rm sb"
    "\<forall>a. (registers sb a = None) = (registers s a = None)"
    using fifo_data_read_ok [OF assms(1) Cons.prems] by blast
  have step: "burst_read_loop rm start (i # rest) s vals = burst_read_loop rm start rest s1 (vals @ [v])"
    by (simp add: v_def s1_def r Let_def split: option.splits)
  have ok1: "state_ok rm s1"
    using Cons.prems r(2) by (simp add: s1_def r(1) split: option.splits)
  have same1: "\<forall>a. (registers s1 a = None) = (registers s a = None)"
    using r(3) by (simp add: s1_def r(1) split: option.splits)
  have v0: "registers s (start + i) = None \<Longrightarrow> v = 0"
    by (simp add: v_def)
  obtain vals' s' where ih: "burst_read_loop rm start rest s1 (vals @ [v]) = (Inr vals', s')"
    "state_ok rm s'"
    "\<forall>a. (registers s' a = None) = (registers s1 a = None)"
    "length vals' = length (vals @ [v]) + length rest"
    "take (length (vals @ [v])) vals' = vals @ [v]"
    "\<forall>j < length rest. registers s1 (start + rest ! j) = None \<longrightarrow> vals' ! (length (vals @ [v]) + j) = 0"
    using Cons.IH [OF ok1, of "vals @ [v]"] by blast
  have t1: "take (length vals) vals' = vals"
  proof -
    have "take (length vals) (take (length (vals @ [v])) vals') = take (length vals) (vals @ [v])"
      using ih(5) by simp
    then show ?thesis by (simp add: min_def)
  qed
  have at: "vals' ! length vals = v"
  proof -
    have "length vals < length (vals @ [v])" by simp
    then have "take (length (vals @ [v])) vals' ! length vals = vals' ! length vals"
      by (rule nth_take)
    then have "vals' ! length vals = (vals @ [v]) ! length vals"
      unfolding ih(5) by simp
    then show ?thesis by simp
  qed
  have z: "\<forall>j < length (i # rest). registers s (start + (i # rest) ! j) = None \<longrightarrow>
      vals' ! (length vals + j) = 0"
  proof (intro allI impI)
    fix j
    assume j: "j < length (i # rest)" and n: "registers s (start + (i # rest) ! j) = None"
    show "vals' ! (length vals + j) = 0"
    proof (cases j)
      case 0
      then show ?thesis using n v0 at by simp
    next
      case (Suc j')
      then have "registers s1 (start + rest ! j') = None" "j' < length rest"
        using n j same1 by simp_all
      then have "vals' ! (length (vals @ [v]) + j') = 0"
        using ih(6) by blast
      then show ?thesis using Suc by simp
    qed
  qed
  show ?case
    unfolding step
    using ih(1,2,3,4) same1 t1 z by simp
qed

lemma state_ok_burst_write_loop:
  assumes "state_ok rm s"
  shows "state_ok rm (burst_write_loop rm start i ws s)"
  using assms
proof (induction ws arbitrary: i s)
  case Nil
  then show ?case by simp
next
  case (Cons v rest)
  show ?case
  proof (cases "registers s (start + i)")
    case None
    then show ?thesis
      using Cons.IH [OF Cons.prems, of "i + 1"] by simp
  next
    case (Some y)
    define s1 where "s1 = s\<lparr> registers := (registers s)(start + i \<mapsto> v AND 0xFF) \<rparr>"
    define s2 where "s2 = (if start + i = REG_MODE_CONFIG rm then handle_mode_config_write rm v s1
                      else if start + i = REG_FIFO_CONFIG rm then handle_fifo_config_write rm v s1
                      else s1)"
    have ok1: "state_ok rm s1"
      unfolding s1_def by (rule state_ok_upd [OF Cons.prems]) (simp add: Some)
    have p1: "registers s1 (start + i) \<noteq> None"
      by (simp add: s1_def)
    have ok2: "state_ok rm s2"
    proof (cases "start + i = REG_MODE_CONFIG rm")
      case True
      with p1 have "registers s1 (REG_MODE_CONFIG rm) \<noteq> None" by simp
      then show ?thesis
        using True state_ok_mode_config_write [OF ok1, of v] by (simp add: s2_def)
    next
      case n1: False
      show ?thesis
      proof (cases "start + i = REG_FIFO_CONFIG rm")
        case True
        with p1 have "registers s1 (REG_FIFO_CONFIG rm) \<noteq> None" by simp
        then show ?thesis
          using n1 True state_ok_fifo_config_write [OF ok1, of v] by (simp add: s2_def)
      next
        case False
        then show ?thesis using n1 ok1 by (simp add: s2_def)
      qed
    qed
    have "burst_write_loop rm start i (v # rest) s = burst_write_loop rm start (i + 1) rest s2"
      using Some by (simp add: s1_def s2_def Let_def)
    then show ?thesis
      using Cons.IH [OF ok2, of "i + 1"] by simp
  qed
qed

lemma state_ok_write_registers_burst:
  assumes "state_ok rm s"
  shows "state_ok rm (snd (write_registers_burst rm s start ws))"
proof -
  have "state_ok rm (s1\<lparr> write_operations := write_operations s1 + 1 \<rparr>)" if "state_ok rm s1" for s1
    using that by (simp add: state_ok_def)
  then show ?thesis
    using state_ok_count_error [OF assms] state_ok_burst_write_loop [OF assms]
    by (simp add: write_registers_burst_def Let_def)
qed

lemma state_ok_unknown:
  assumes "state_ok rm s"
  shows "(registers s a = None) = (DEFAULT_REGISTER_VALUES rm a = None)"
proof -
  have "dom (registers s) = dom (DEFAULT_REGISTER_VALUES rm)"
    using assms by (simp add: state_ok_def)
  then have "(a \<in> dom (registers s)) = (a \<in> dom (DEFAULT_REGISTER_VALUES rm))"
    by simp
  then show ?thesis unfolding domIff by blast
qed

lemma state_ok_read_registers_burst:
  assumes "register_map_ok rm" and "state_ok rm s"
  shows "state_ok rm (snd (read_registers_burst rm s start count))"
proof -
  obtain vals s1 where l: "burst_read_loop rm start (py_range count) s [] = (Inr vals, s1)"
    "state_ok rm s1"
    using burst_read_loop_ok [OF assms, of start "py_range count" "[]"] by blast
  have "state_ok rm (s1\<lparr> read_operations := read_operations s1 + 1 \<rparr>)"
    using l(2) by (simp add: state_ok_def)
  then show ?thesis
    using state_ok_count_error [OF assms(2)] l(1)
    by (simp add: read_registers_burst_def)
qed

lemma state_ok_set_communication_delay:
  assumes "state_ok rm s"
  shows "state_ok rm (set_communication_delay s delay)"
  using assms by (simp add: state_ok_def set_communication_delay_def)

lemma state_ok_set_bus_availability:
  assumes "state_ok rm s"
  shows "state_ok rm (set_bus_availability s available)"
  using assms by (simp add: state_ok_def set_bus_availability_def)

subsection \<open>The state with an almost-full level of 15\<close>

lemma clear_10: "((x::int) AND NOT 0x10) AND 0x10 = 0"
  by (rule bit_eqI) (auto simp add: bit_simps)

lemma clear_10': "((x::int) AND - 17) AND 0x10 = 0"
  using clear_10 [of x] by simp

lemma threshold_state_eq:
  "threshold_state = fresh_state\<lparr> registers := (registers fresh_state)(0x08 \<mapsto> 0x0F),
       write_operations := 1, averaging_samples := Some 1, fifo_rollover := Some False \<rparr>"
  by (simp add: threshold_state_def write_register_def fresh_state_fields max30102_map_fields
      sleep_raises_def handle_fifo_config_write_def dict_get_def averaging_map_def)

lemma threshold_state_ok: "state_ok max30102_map threshold_state"
  unfolding threshold_state_def by (rule state_ok_write_register [OF fresh_state_ok])

lemma threshold_pushed_eq:
  "threshold_pushed =
     Inr (threshold_state\<lparr> fifo_buffer := [sample_record (1, 1)],
            registers := (registers threshold_state)(0x04 \<mapsto> 6, 0x00 \<mapsto> 0x10) \<rparr>)"
proof -
  have k: "registers threshold_state (REG_FIFO_CONFIG max30102_map) = Some 0x0F"
    "registers threshold_state (REG_INTR_STATUS_1 max30102_map) = Some 0"
    "registers threshold_state (REG_OVF_COUNTER max30102_map) = Some 0"
    and f: "fifo_buffer threshold_state = []"
    by (simp_all add: threshold_state_eq fresh_state_fields max30102_map_fields)
  show ?thesis
    unfolding threshold_pushed_def push_eq [OF max30102_map_ok k]
    by (simp add: f fifo_size_def max30102_map_fields)
qed

subsection \<open>The state with one record\<close>

lemma one_record_state_eq:
  "one_record_state =
     fresh_state\<lparr> fifo_buffer := [[3, 13, 64, 0, 37, 28]],
        registers := (registers fresh_state)(0x04 \<mapsto> 6, 0x00 \<mapsto> 0x10) \<rparr>"
proof -
  have k: "registers fresh_state (REG_FIFO_CONFIG max30102_map) = Some 0"
    "registers fresh_state (REG_INTR_STATUS_1 max30102_map) = Some 0"
    "registers fresh_state (REG_OVF_COUNTER max30102_map) = Some 0"
    by (simp_all add: fresh_state_fields max30102_map_fields)
  have r: "sample_record (200000, 9500) = [3, 13, 64, 0, 37, 28]"
    by (simp add: sample_record_def sample_bytes_def)
  show ?thesis
    unfolding one_record_state_def push_eq [OF max30102_map_ok k]
    by (simp add: fresh_state_fields fifo_size_def max30102_map_fields r)
qed

subsection \<open>Sample-rate table and SpO2 configuration writes\<close>

lemma and_63_7: "((x::int) AND 63) AND 7 = x AND 7"
proof -
  have a: "(63::int) = mask 6" and b: "(7::int) = mask 3"
    by (simp_all add: mask_eq_exp_minus_1)
  show ?thesis
    unfolding a b
    by (rule bit_eqI) (auto simp add: bit_simps)
qed

lemma sample_rates_table:
  assumes "distinct (map fst (sample_rates rm))"
  shows "dict_get (sample_rates rm) (SPO2_SR_50 rm) 100 = 50"
    and "dict_get (sample_rates rm) (SPO2_SR_100 rm) 100 = 100"
    and "dict_get (sample_rates rm) (SPO2_SR_200 rm) 100 = 200"
    and "dict_get (sample_rates rm) (SPO2_SR_400 rm) 100 = 400"
    and "dict_get (sample_rates rm) (SPO2_SR_800 rm) 100 = 800"
    and "dict_get (sample_rates rm) (SPO2_SR_1000 rm) 100 = 1000"
    and "dict_get (sample_rates rm) (SPO2_SR_1600 rm) 100 = 1600"
    and "dict_get (sample_rates rm) (SPO2_SR_3200 rm) 100 = 3200"
  using assms by (auto simp add: dict_get_def sample_rates_def)

lemma write_spo2_config:
  assumes "register_map_ok rm" and "i2c_bus_available s"
    and "registers s (REG_SPO2_CONFIG rm) \<noteq> None" and "0 \<le> communication_delay s"
  shows "write_register rm s (REG_SPO2_CONFIG rm) v =
     (True, s\<lparr> registers := (registers s)(REG_SPO2_CONFIG rm \<mapsto> v AND 0xFC),
               sample_rate := Some (dict_get (sample_rates rm) (drop_bit 2 v AND 0x07) 100),
               write_operations := write_operations s + 1 \<rparr>)"
proof -
  have d: "REG_SPO2_CONFIG rm \<noteq> REG_MODE_CONFIG rm" "REG_SPO2_CONFIG rm \<noteq> REG_FIFO_CONFIG rm"
    "REG_SPO2_CONFIG rm \<noteq> REG_FIFO_WR_PTR rm" "REG_SPO2_CONFIG rm \<noteq> REG_FIFO_RD_PTR rm"
    using special_distinct [OF assms(1)] by auto
  show ?thesis
    using d assms(2,3,4)
    by (simp add: write_register_def sleep_raises_def handle_spo2_config_write_def)
qed

lemma dev_write_spo2_config:
  assumes "register_map_ok rm"
  shows "dev_write_register rm d (REG_SPO2_CONFIG rm) v =
     Inr (True, d\<lparr> dev_registers := (dev_registers d)(REG_SPO2_CONFIG rm \<mapsto> v AND 0xFF) \<rparr>)"
proof -
  have d: "REG_SPO2_CONFIG rm \<noteq> REG_MODE_CONFIG rm" "REG_SPO2_CONFIG rm \<noteq> REG_FIFO_CONFIG rm"
    using special_distinct [OF assms(1)] by auto
  have k: "DEFAULT_REGISTER_VALUES rm (REG_SPO2_CONFIG rm) \<noteq> None"
    by (rule special_default [OF assms], simp add: special_registers_def)
  show ?thesis
    using d k by (simp add: dev_write_register_def)
qed

lemma max30102_rates_distinct: "distinct (map fst (sample_rates max30102_map))"
  by (simp add: sample_rates_def max30102_map_def)

lemma fresh_device_eq:
  "fresh_device = (blank_device max30102_map)
      \<lparr> dev_registers := (DEFAULT_REGISTER_VALUES max30102_map)(0x04 \<mapsto> 0, 0x00 \<mapsto> 0) \<rparr>"
  by (simp add: fresh_device_def MAX30102Device_def dev_update_fifo_pointers_def blank_device_def
      max30102_map_def fifo_size_def)

subsection \<open>Reset through the mode register\<close>

text \<open>
  C1. A successful write to the mode-configuration address with the reset bit (0x40) set
  restores the default table, empties the FIFO and zeroes the read and error counters, but
  \<^verbatim>\<open>write_register\<close> then counts the write itself: \<open>write_operations\<close> is 1 when the call
  returns, not 0.
\<close>

theorem reset_leaves_write_count_one:
  assumes "i2c_bus_available s"
    and "registers s (REG_MODE_CONFIG rm) \<noteq> None"
    and "0 \<le> communication_delay s"
    and "v AND 0x40 \<noteq> 0"
  shows "write_register rm s (REG_MODE_CONFIG rm) v =
           (True, s\<lparr> registers := DEFAULT_REGISTER_VALUES rm, fifo_buffer := [],
                       read_operations := 0, write_operations := 1, errors := 0 \<rparr>)"
  using assms
  by (simp add: write_register_def sleep_raises_def handle_mode_config_write_def
      handle_device_reset_def)

theorem reset_leaves_write_count_one_witness:
  "i2c_bus_available written_state
   \<and> registers written_state (REG_MODE_CONFIG max30102_map) \<noteq> None
   \<and> 0 \<le> communication_delay written_state
   \<and> (0x40 :: int) AND 0x40 \<noteq> 0
   \<and> registers written_state 0x0C = Some 0x30
   \<and> write_operations written_state = 2
   \<and> fst (write_register max30102_map written_state (REG_MODE_CONFIG max30102_map) 0x40) = True
   \<and> registers (snd (write_register max30102_map written_state (REG_MODE_CONFIG max30102_map) 0x40)) 0x0C
       = DEFAULT_REGISTER_VALUES max30102_map 0x0C
   \<and> errors (snd (write_register max30102_map written_state (REG_MODE_CONFIG max30102_map) 0x40)) = 0
   \<and> read_operations (snd (write_register max30102_map written_state (REG_MODE_CONFIG max30102_map) 0x40)) = 0
   \<and> write_operations (snd (write_register max30102_map written_state (REG_MODE_CONFIG max30102_map) 0x40)) = 1"
proof -
  have a: "i2c_bus_available written_state"
    and b: "registers written_state (REG_MODE_CONFIG max30102_map) \<noteq> None"
    and c: "0 \<le> communication_delay written_state"
    and e: "registers written_state 0x0C = Some 0x30" "write_operations written_state = 2"
    by (simp_all add: written_state_eq fresh_state_def I2CProtocolSimulator_def
        initialize_device_def max30102_map_def)
  have d: "(0x40 :: int) AND 0x40 \<noteq> 0" by simp
  show ?thesis
    using a b c d e reset_leaves_write_count_one [OF a b c d] by simp
qed

subsection \<open>Unknown addresses\<close>

text \<open>
  C2. In a state whose register mapping has the keys of the default table (the first part
  of \<open>state_ok\<close>), an address that is no key of the default table is rejected: the write
  fails for every value, the read fails, each counts one error and changes nothing else,
  so the register mapping is the same and holds no cell for the address.
\<close>

theorem unknown_address_rejected:
  assumes "dom (registers s) = dom (DEFAULT_REGISTER_VALUES rm)"
    and "DEFAULT_REGISTER_VALUES rm a = None"
  shows "write_register rm s a v = (False, s\<lparr>errors := errors s + 1\<rparr>)
       \<and> read_register rm s a = (None, s\<lparr>errors := errors s + 1\<rparr>)
       \<and> registers (snd (write_register rm s a v)) = registers s
       \<and> registers (snd (read_register rm s a)) = registers s
       \<and> registers (snd (write_register rm s a v)) a = None"
proof -
  have "a \<notin> dom (registers s)"
    using assms by (simp add: domIff)
  then have none: "registers s a = None"
    by (simp add: domIff)
  then show ?thesis
    by (simp add: write_register_def read_register_def count_error_def)
qed

theorem unknown_address_rejected_witness:
  "dom (registers fresh_state) = dom (DEFAULT_REGISTER_VALUES max30102_map)
   \<and> DEFAULT_REGISTER_VALUES max30102_map 0xFF = None
   \<and> write_register max30102_map fresh_state 0xFF 0x10 = (False, fresh_state\<lparr>errors := 1\<rparr>)
   \<and> read_register max30102_map fresh_state 0xFF = (None, fresh_state\<lparr>errors := 1\<rparr>)
   \<and> registers (snd (write_register max30102_map fresh_state 0xFF 0x10)) 0xFF = None"
proof -
  have d: "dom (registers fresh_state) = dom (DEFAULT_REGISTER_VALUES max30102_map)"
    using fresh_state_ok by (simp add: state_ok_def)
  have n: "DEFAULT_REGISTER_VALUES max30102_map 0xFF = None"
    by (simp add: max30102_map_def)
  have e: "errors fresh_state = 0"
    by (simp add: fresh_state_def I2CProtocolSimulator_def initialize_device_def)
  show ?thesis
    using d n e unknown_address_rejected [OF d n, of "0x10"] by auto
qed

subsection \<open>Bus unavailable\<close>

text \<open>
  C3. While the bus-availability flag is false, each of \<^verbatim>\<open>write_register\<close>,
  \<^verbatim>\<open>read_register\<close>, \<^verbatim>\<open>read_registers_burst\<close> and \<^verbatim>\<open>write_registers_burst\<close> returns its
  failure value and leaves the state as it was except for the error counter, which grows
  by one; registers and FIFO are therefore unchanged.
\<close>

theorem bus_unavailable_fails:
  assumes "\<not> i2c_bus_available s"
  shows "write_register rm s register v = (False, s\<lparr>errors := errors s + 1\<rparr>)
       \<and> read_register rm s register = (None, s\<lparr>errors := errors s + 1\<rparr>)
       \<and> read_registers_burst rm s register count = (None, s\<lparr>errors := errors s + 1\<rparr>)
       \<and> write_registers_burst rm s register vals = (False, s\<lparr>errors := errors s + 1\<rparr>)"
  using assms
  by (simp add: write_register_def read_register_def read_registers_burst_def
      write_registers_burst_def count_error_def)

theorem bus_unavailable_fails_witness:
  "\<not> i2c_bus_available offline_state
   \<and> fst (write_register max30102_map offline_state 0x0C 0x30) = False
   \<and> errors (snd (write_register max30102_map offline_state 0x0C 0x30)) = 1
   \<and> registers (snd (write_register max30102_map offline_state 0x0C 0x30)) = registers offline_state
   \<and> fifo_buffer (snd (write_register max30102_map offline_state 0x0C 0x30)) = fifo_buffer offline_state
   \<and> read_register max30102_map offline_state 0x0C = (None, offline_state\<lparr>errors := 1\<rparr>)
   \<and> read_registers_burst max30102_map offline_state 0x0C 2 = (None, offline_state\<lparr>errors := 1\<rparr>)
   \<and> write_registers_burst max30102_map offline_state 0x0C [0x20, 0x30] = (False, offline_state\<lparr>errors := 1\<rparr>)"
proof -
  have off: "\<not> i2c_bus_available offline_state"
    by (simp add: offline_state_def fresh_state_def set_bus_availability_def I2CProtocolSimulator_def
        initialize_device_def)
  have e: "errors offline_state = 0"
    by (simp add: offline_state_def fresh_state_def set_bus_availability_def I2CProtocolSimulator_def
        initialize_device_def)
  show ?thesis
    using off e bus_unavailable_fails [where s = offline_state and rm = max30102_map and register = "0x0C"
        and v = "0x30" and count = 2 and vals = "[0x20, 0x30]"]
    by simp
qed

subsection \<open>FIFO overflow\<close>

text \<open>
  C4. From a state with an empty FIFO and an overflow counter of 0, pushing 37 records
  leaves exactly 32, the records of the last 32 pairs in push order (the first five are
  gone), and the overflow counter register at 5 mod 32. In general a push onto a full FIFO
  drops the record at index 0, appends the new one and replaces the overflow counter \<open>c\<close>
  by \<open>(c + 1) mod 32\<close>.
\<close>

theorem fifo_overflow_evicts_oldest:
  assumes "register_map_ok rm" and "state_ok rm s"
  shows "(fifo_buffer s = [] \<and> registers s (REG_OVF_COUNTER rm) = Some 0 \<and> length ps = 37 \<longrightarrow>
          (\<exists>s'. push_all rm s ps = Inr s'
             \<and> length (fifo_buffer s') = 32
             \<and> fifo_buffer s' = map sample_record (drop 5 ps)
             \<and> registers s' (REG_OVF_COUNTER rm) = Some (5 mod 32)))
       \<and> (int (length (fifo_buffer s)) \<ge> fifo_size \<and> registers s (REG_OVF_COUNTER rm) = Some c \<longrightarrow>
          (\<exists>s'. push_sample_to_fifo rm s red ir = Inr s'
             \<and> fifo_buffer s' = tl (fifo_buffer s) @ [sample_record (red, ir)]
             \<and> length (fifo_buffer s') = length (fifo_buffer s)
             \<and> registers s' (REG_OVF_COUNTER rm) = Some ((c + 1) mod 32)))"
proof (intro conjI impI)
  assume a: "fifo_buffer s = [] \<and> registers s (REG_OVF_COUNTER rm) = Some 0 \<and> length ps = 37"
  then have c0: "registers s (REG_OVF_COUNTER rm) = Some 0" by simp
  obtain s' where s': "push_all rm s ps = Inr s'"
    "fifo_buffer s' = drop (length (fifo_buffer s) + length ps - 32) (fifo_buffer s @ map sample_record ps)"
    "registers s' (REG_OVF_COUNTER rm) =
        Some (if length (fifo_buffer s) + length ps \<le> 32 then 0
              else (0 + int (length (fifo_buffer s) + length ps - 32)) mod 32)"
    using push_all_state [OF assms c0, of ps] by blast
  have "fifo_buffer s' = map sample_record (drop 5 ps)"
    using s'(2) a by (simp add: drop_map)
  moreover have "registers s' (REG_OVF_COUNTER rm) = Some (5 mod 32)"
    using s'(3) a by simp
  moreover have "length (fifo_buffer s') = 32"
    using \<open>fifo_buffer s' = map sample_record (drop 5 ps)\<close> a by simp
  ultimately show "\<exists>s'. push_all rm s ps = Inr s'
             \<and> length (fifo_buffer s') = 32
             \<and> fifo_buffer s' = map sample_record (drop 5 ps)
             \<and> registers s' (REG_OVF_COUNTER rm) = Some (5 mod 32)"
    using s'(1) by blast
next
  assume a: "int (length (fifo_buffer s)) \<ge> fifo_size \<and> registers s (REG_OVF_COUNTER rm) = Some c"
  then have ne: "fifo_buffer s \<noteq> []"
    by (auto simp add: fifo_size_def)
  obtain s' where s': "push_sample_to_fifo rm s red ir = Inr s'"
    "fifo_buffer s' =
         (if int (length (fifo_buffer s)) \<ge> fifo_size then tl (fifo_buffer s) else fifo_buffer s)
           @ [sample_record (red, ir)]"
    "registers s' (REG_OVF_COUNTER rm) =
         (if int (length (fifo_buffer s)) \<ge> fifo_size
          then map_option (\<lambda>c. (c + 1) mod 32) (registers s (REG_OVF_COUNTER rm))
          else registers s (REG_OVF_COUNTER rm))"
    using push_state [OF assms, of red ir] by blast
  show "\<exists>s'. push_sample_to_fifo rm s red ir = Inr s'
             \<and> fifo_buffer s' = tl (fifo_buffer s) @ [sample_record (red, ir)]
             \<and> length (fifo_buffer s') = length (fifo_buffer s)
             \<and> registers s' (REG_OVF_COUNTER rm) = Some ((c + 1) mod 32)"
    using s' a ne by (cases "fifo_buffer s") simp_all
qed

theorem fifo_overflow_evicts_oldest_witness:
  "register_map_ok max30102_map \<and> state_ok max30102_map fresh_state
   \<and> fifo_buffer fresh_state = []
   \<and> registers fresh_state (REG_OVF_COUNTER max30102_map) = Some 0
   \<and> length samples37 = 37
   \<and> (\<exists>s'. push_all max30102_map fresh_state samples37 = Inr s'
         \<and> length (fifo_buffer s') = 32
         \<and> fifo_buffer s' = map sample_record (drop 5 samples37)
         \<and> registers s' (REG_OVF_COUNTER max30102_map) = Some 5)
   \<and> state_ok max30102_map full_state
   \<and> int (length (fifo_buffer full_state)) \<ge> fifo_size
   \<and> registers full_state (REG_OVF_COUNTER max30102_map) = Some 0
   \<and> (\<exists>s'. push_sample_to_fifo max30102_map full_state 10032 9532 = Inr s'
         \<and> fifo_buffer s' = tl (fifo_buffer full_state) @ [sample_record (10032, 9532)]
         \<and> length (fifo_buffer s') = length (fifo_buffer full_state)
         \<and> registers s' (REG_OVF_COUNTER max30102_map) = Some 1)"
proof -
  have a: "fifo_buffer fresh_state = []"
    "registers fresh_state (REG_OVF_COUNTER max30102_map) = Some 0"
    "length samples37 = 37"
    by (simp_all add: fresh_state_fields max30102_map_fields samples37_def)
  have b: "int (length (fifo_buffer full_state)) \<ge> fifo_size"
    "registers full_state (REG_OVF_COUNTER max30102_map) = Some 0"
    by (simp_all add: full_state_props max30102_map_fields samples37_def fifo_size_def)
  show ?thesis
    using a b max30102_map_ok fresh_state_ok full_state_props(2)
      fifo_overflow_evicts_oldest [OF max30102_map_ok fresh_state_ok, of samples37]
      fifo_overflow_evicts_oldest [OF max30102_map_ok full_state_props(2), of _ 0 10032 9532]
    by simp
qed


subsection \<open>Packing and unpacking\<close>

text \<open>
  C5. \<^verbatim>\<open>push_sample_to_fifo\<close> succeeds and stores, as the last record, the six bytes of the
  pair; unpacking that record gives the low 18 bits of each input. Pushed onto an empty
  FIFO and read back with \<^verbatim>\<open>read_fifo_samples\<close>, a pair of values in \<open>[0, 2^18 - 1]\<close> comes
  back unchanged, and any other pair comes back truncated to its low 18 bits, which never
  exceed 18 bits.
\<close>

theorem sample_packing_round_trip:
  assumes "register_map_ok rm" and "state_ok rm s"
  shows "\<exists>s1. push_sample_to_fifo rm s red ir = Inr s1
     \<and> last (fifo_buffer s1) = sample_record (red, ir)
     \<and> unpack_sample (sample_record (red, ir)) = Inr (take_bit 18 red, take_bit 18 ir)
     \<and> (fifo_buffer s = [] \<and> 1 \<le> count \<longrightarrow>
          (\<exists>s2. read_fifo_samples rm s1 count = Inr ([(take_bit 18 red, take_bit 18 ir)], s2)))
     \<and> (fifo_buffer s = [] \<and> 1 \<le> count \<and> 0 \<le> red \<and> red < 2 ^ 18 \<and> 0 \<le> ir \<and> ir < 2 ^ 18 \<longrightarrow>
          (\<exists>s2. read_fifo_samples rm s1 count = Inr ([(red, ir)], s2)))
     \<and> 0 \<le> take_bit 18 red \<and> take_bit 18 red < 2 ^ 18
     \<and> 0 \<le> take_bit 18 ir \<and> take_bit 18 ir < 2 ^ 18"
proof -
  obtain s1 where s1: "push_sample_to_fifo rm s red ir = Inr s1" "state_ok rm s1"
    "fifo_buffer s1 =
         (if int (length (fifo_buffer s)) \<ge> fifo_size then tl (fifo_buffer s) else fifo_buffer s)
           @ [sample_record (red, ir)]"
    using push_state [OF assms, of red ir] by blast
  have l: "last (fifo_buffer s1) = sample_record (red, ir)"
    using s1(3) by simp
  obtain s2 where s2: "read_fifo_samples rm s1 count =
         Inr (map record_pair (take (nat (min count (int (length (fifo_buffer s1))))) (fifo_buffer s1)), s2)"
    using read_fifo_samples_state [OF assms(1) s1(2), of count] by blast
  have r: "fifo_buffer s = [] \<and> 1 \<le> count \<Longrightarrow>
      read_fifo_samples rm s1 count = Inr ([(take_bit 18 red, take_bit 18 ir)], s2)"
  proof -
    assume a: "fifo_buffer s = [] \<and> 1 \<le> count"
    then have b: "fifo_buffer s1 = [sample_record (red, ir)]"
      using s1(3) by (simp add: fifo_size_def)
    have "nat (min count (int (length (fifo_buffer s1)))) = 1"
      using a b by simp
    then show ?thesis
      using s2 b by (simp add: record_pair_sample_record)
  qed
  have r': "fifo_buffer s = [] \<and> 1 \<le> count \<and> 0 \<le> red \<and> red < 2 ^ 18 \<and> 0 \<le> ir \<and> ir < 2 ^ 18 \<Longrightarrow>
      read_fifo_samples rm s1 count = Inr ([(red, ir)], s2)"
    using r by (simp add: take_bit_18_id)
  show ?thesis
    using s1(1) l r r' unpack_sample_record [of red ir] take_bit_18_bounds
    by blast
qed

theorem sample_packing_round_trip_witness:
  "register_map_ok max30102_map \<and> state_ok max30102_map fresh_state
   \<and> fifo_buffer fresh_state = [] \<and> (1::int) \<le> 1
   \<and> (0::int) \<le> 10000 \<and> (10000::int) < 2 ^ 18 \<and> (0::int) \<le> 262143 \<and> (262143::int) < 2 ^ 18
   \<and> (\<exists>s1 s2. push_sample_to_fifo max30102_map fresh_state 10000 262143 = Inr s1
         \<and> read_fifo_samples max30102_map s1 1 = Inr ([(10000, 262143)], s2))
   \<and> (\<exists>s1 s2. push_sample_to_fifo max30102_map fresh_state 262144 (-1) = Inr s1
         \<and> read_fifo_samples max30102_map s1 1 = Inr ([(0, 262143)], s2))"
proof -
  have a: "fifo_buffer fresh_state = []"
    by (simp add: fresh_state_fields)
  have t: "take_bit 18 (262144::int) = 0" "take_bit 18 (-1::int) = 262143"
    by (simp_all add: take_bit_eq_mod)
  show ?thesis
    using a t max30102_map_ok fresh_state_ok
      sample_packing_round_trip [OF max30102_map_ok fresh_state_ok, of 10000 262143 1]
      sample_packing_round_trip [OF max30102_map_ok fresh_state_ok, of 262144 "-1" 1]
    by auto
qed


subsection \<open>FIFO round trip\<close>

text \<open>
  C6. From an empty FIFO, pushing (10000, 9500) and (11000, 10500) and reading two samples
  returns these two pairs in this order and leaves the FIFO empty, the status report showing
  0 samples. In general \<^verbatim>\<open>read_fifo_samples(count)\<close> returns the unpacked first
  \<open>min(count, length)\<close> records (none for a negative \<open>count\<close>) and leaves the others; after
  pushing at most 32 pairs onto an empty FIFO these are the first pairs pushed, in push
  order, each truncated to 18 bits.
\<close>

theorem fifo_round_trip:
  assumes "register_map_ok rm" and "state_ok rm s"
  shows "(fifo_buffer s = [] \<longrightarrow>
           (\<exists>s1 s2 st. push_all rm s [(10000, 9500), (11000, 10500)] = Inr s1
              \<and> read_fifo_samples rm s1 2 = Inr ([(10000, 9500), (11000, 10500)], s2)
              \<and> fifo_buffer s2 = []
              \<and> get_device_status rm s2 = Inr st \<and> st_fifo_samples st = 0))
       \<and> (\<exists>s'. read_fifo_samples rm s count =
                  Inr (map record_pair (take (nat (min count (int (length (fifo_buffer s))))) (fifo_buffer s)), s')
              \<and> fifo_buffer s' = drop (nat (min count (int (length (fifo_buffer s))))) (fifo_buffer s))
       \<and> (fifo_buffer s = [] \<and> length ps \<le> 32 \<longrightarrow>
           (\<exists>s1 s2. push_all rm s ps = Inr s1
              \<and> read_fifo_samples rm s1 count =
                  Inr (map (\<lambda>p. (take_bit 18 (fst p), take_bit 18 (snd p)))
                         (take (nat (min count (int (length ps)))) ps), s2)
              \<and> fifo_buffer s2 = map sample_record (drop (nat (min count (int (length ps)))) ps)))"
proof -
  obtain c where c: "registers s (REG_OVF_COUNTER rm) = Some c"
    using state_ok_keys [OF assms] by blast
  have general: "\<exists>s1 s2. push_all rm s qs = Inr s1
              \<and> read_fifo_samples rm s1 n =
                  Inr (map (\<lambda>p. (take_bit 18 (fst p), take_bit 18 (snd p)))
                         (take (nat (min n (int (length qs)))) qs), s2)
              \<and> fifo_buffer s2 = map sample_record (drop (nat (min n (int (length qs)))) qs)
              \<and> state_ok rm s2"
    if e: "fifo_buffer s = []" and le: "length qs \<le> 32" for qs n
  proof -
    obtain s1 where s1: "push_all rm s qs = Inr s1" "state_ok rm s1"
      "fifo_buffer s1 = drop (length (fifo_buffer s) + length qs - 32) (fifo_buffer s @ map sample_record qs)"
      using push_all_state [OF assms c, of qs] by blast
    have b: "fifo_buffer s1 = map sample_record qs"
      using s1(3) e le by simp
    obtain s2 where s2: "read_fifo_samples rm s1 n =
         Inr (map record_pair (take (nat (min n (int (length (fifo_buffer s1))))) (fifo_buffer s1)), s2)"
      "fifo_buffer s2 = drop (nat (min n (int (length (fifo_buffer s1))))) (fifo_buffer s1)"
      "state_ok rm s2"
      using read_fifo_samples_state [OF assms(1) s1(2), of n] by blast
    have "read_fifo_samples rm s1 n =
        Inr (map (\<lambda>p. (take_bit 18 (fst p), take_bit 18 (snd p))) (take (nat (min n (int (length qs)))) qs), s2)"
      using s2(1) unfolding b
      by (simp add: take_map record_pair_sample_record')
    moreover have "fifo_buffer s2 = map sample_record (drop (nat (min n (int (length qs)))) qs)"
      using s2(2) unfolding b by (simp add: drop_map)
    ultimately show ?thesis
      using s1(1) s2(3) by blast
  qed
  have first: "\<exists>s1 s2 st. push_all rm s [(10000, 9500), (11000, 10500)] = Inr s1
              \<and> read_fifo_samples rm s1 2 = Inr ([(10000, 9500), (11000, 10500)], s2)
              \<and> fifo_buffer s2 = []
              \<and> get_device_status rm s2 = Inr st \<and> st_fifo_samples st = 0"
    if e: "fifo_buffer s = []"
  proof -
    have t: "take_bit 18 (10000::int) = 10000" "take_bit 18 (9500::int) = 9500"
      "take_bit 18 (11000::int) = 11000" "take_bit 18 (10500::int) = 10500"
      by (simp_all add: take_bit_eq_mod)
    obtain s1 s2 where s: "push_all rm s [(10000, 9500), (11000, 10500)] = Inr s1"
       "read_fifo_samples rm s1 2 =
          Inr (map (\<lambda>p. (take_bit 18 (fst p), take_bit 18 (snd p)))
                 (take (nat (min 2 (int (length [(10000::int, 9500::int), (11000, 10500)]))))
                    [(10000, 9500), (11000, 10500)]), s2)"
       "fifo_buffer s2 = map sample_record
           (drop (nat (min 2 (int (length [(10000::int, 9500::int), (11000, 10500)]))))
              [(10000, 9500), (11000, 10500)])"
       "state_ok rm s2"
      using general [OF e, of "[(10000, 9500), (11000, 10500)]" 2] by auto
    obtain st where st: "get_device_status rm s2 = Inr st"
      "st_fifo_samples st = int (length (fifo_buffer s2))"
      using get_device_status_fifo_samples [OF assms(1) s(4)] by blast
    have "read_fifo_samples rm s1 2 = Inr ([(10000, 9500), (11000, 10500)], s2)"
      using s(2) by (simp add: t)
    moreover have "fifo_buffer s2 = []"
      using s(3) by simp
    ultimately show ?thesis
      using s(1) st by auto
  qed
  have second: "\<exists>s'. read_fifo_samples rm s count =
                  Inr (map record_pair (take (nat (min count (int (length (fifo_buffer s))))) (fifo_buffer s)), s')
              \<and> fifo_buffer s' = drop (nat (min count (int (length (fifo_buffer s))))) (fifo_buffer s)"
    using read_fifo_samples_state [OF assms, of count] by blast
  show ?thesis
    using first second general [of ps count] by blast
qed

theorem fifo_round_trip_witness:
  "register_map_ok max30102_map \<and> state_ok max30102_map fresh_state
   \<and> fifo_buffer fresh_state = []
   \<and> length [(10000::int, 9500::int), (11000, 10500), (12000, 11500)] \<le> 32
   \<and> (\<exists>s1 s2 st. push_all max30102_map fresh_state [(10000, 9500), (11000, 10500)] = Inr s1
         \<and> read_fifo_samples max30102_map s1 2 = Inr ([(10000, 9500), (11000, 10500)], s2)
         \<and> fifo_buffer s2 = []
         \<and> get_device_status max30102_map s2 = Inr st \<and> st_fifo_samples st = 0)
   \<and> (\<exists>s1 s2. push_all max30102_map fresh_state [(10000, 9500), (11000, 10500), (12000, 11500)] = Inr s1
         \<and> read_fifo_samples max30102_map s1 2 = Inr ([(10000, 9500), (11000, 10500)], s2)
         \<and> fifo_buffer s2 = [sample_record (12000, 11500)])"
proof -
  have a: "fifo_buffer fresh_state = []"
    by (simp add: fresh_state_fields)
  have t: "take_bit 18 (10000::int) = 10000" "take_bit 18 (9500::int) = 9500"
    "take_bit 18 (11000::int) = 11000" "take_bit 18 (10500::int) = 10500"
    by (simp_all add: take_bit_eq_mod)
  show ?thesis
    using a t max30102_map_ok fresh_state_ok
      fifo_round_trip [OF max30102_map_ok fresh_state_ok,
        of 2 "[(10000, 9500), (11000, 10500), (12000, 11500)]"]
    by simp
qed

subsection \<open>The almost-full bit after a push\<close>

text \<open>
  C7, as stated, fails: with an almost-full level of 15 in the low four bits of the FIFO
  configuration register, one push into the empty FIFO succeeds and leaves a FIFO of length
  1, below the level, yet bit 4 (0x10) of the interrupt status register is set.
\<close>

theorem almost_full_bit_counterexample:
  "\<not> isl threshold_pushed
   \<and> int (length (fifo_buffer (projr threshold_pushed))) = 1
   \<and> registers (projr threshold_pushed) (REG_FIFO_CONFIG max30102_map) = Some 0x0F
   \<and> registers (projr threshold_pushed) (REG_INTR_STATUS_1 max30102_map) = Some 0x10
   \<and> \<not> ((the (registers (projr threshold_pushed) (REG_INTR_STATUS_1 max30102_map)) AND 0x10 \<noteq> 0)
          = (int (length (fifo_buffer (projr threshold_pushed)))
               \<ge> the (registers (projr threshold_pushed) (REG_FIFO_CONFIG max30102_map)) AND 0x0F))"
  by (simp add: threshold_pushed_eq threshold_state_eq fresh_state_fields max30102_map_fields)


text \<open>
  C7, amended. After every push bit 4 (0x10) of the interrupt status register is set,
  whatever the almost-full level: \<^verbatim>\<open>_update_fifo_pointers\<close> by itself sets the bit when
  the FIFO length is at least the level in the low four bits of the FIFO configuration
  register and clears it otherwise, and \<^verbatim>\<open>push_sample_to_fifo\<close> then sets it because the
  FIFO is not empty.
\<close>

theorem push_sets_almost_full_bit:
  assumes "register_map_ok rm" and "state_ok rm s"
  shows "(\<exists>s' st. push_sample_to_fifo rm s red ir = Inr s'
            \<and> registers s' (REG_INTR_STATUS_1 rm) = Some st \<and> st AND 0x10 = 0x10)
       \<and> (\<exists>s' st cfg. update_fifo_pointers rm s = Inr s'
            \<and> fifo_buffer s' = fifo_buffer s
            \<and> registers s' (REG_INTR_STATUS_1 rm) = Some st
            \<and> registers s' (REG_FIFO_CONFIG rm) = Some cfg
            \<and> ((st AND 0x10 = 0x10) = (int (length (fifo_buffer s)) \<ge> cfg AND 0x0F))
            \<and> ((st AND 0x10 = 0) = (int (length (fifo_buffer s)) < cfg AND 0x0F)))"
proof -
  obtain st wr ovf rd cfg where k:
    "registers s (REG_INTR_STATUS_1 rm) = Some st"
    "registers s (REG_FIFO_WR_PTR rm) = Some wr"
    "registers s (REG_OVF_COUNTER rm) = Some ovf"
    "registers s (REG_FIFO_RD_PTR rm) = Some rd"
    "registers s (REG_FIFO_CONFIG rm) = Some cfg"
    using state_ok_keys [OF assms] by blast
  have d: "REG_FIFO_CONFIG rm \<noteq> REG_INTR_STATUS_1 rm" "REG_FIFO_CONFIG rm \<noteq> REG_FIFO_WR_PTR rm"
    using special_distinct [OF assms(1)] by auto
  have a: "\<exists>s' st. push_sample_to_fifo rm s red ir = Inr s'
            \<and> registers s' (REG_INTR_STATUS_1 rm) = Some st \<and> st AND 0x10 = 0x10"
    using push_state [OF assms, of red ir] by blast
  note u = update_fifo_pointers_eq [OF assms(1) k(5) k(1)]
  have b: "\<exists>s' st cfg. update_fifo_pointers rm s = Inr s'
            \<and> fifo_buffer s' = fifo_buffer s
            \<and> registers s' (REG_INTR_STATUS_1 rm) = Some st
            \<and> registers s' (REG_FIFO_CONFIG rm) = Some cfg
            \<and> ((st AND 0x10 = 0x10) = (int (length (fifo_buffer s)) \<ge> cfg AND 0x0F))
            \<and> ((st AND 0x10 = 0) = (int (length (fifo_buffer s)) < cfg AND 0x0F))"
    unfolding u using d k(5) by (simp add: or_10 clear_10')
  show ?thesis using a b by blast
qed

theorem push_sets_almost_full_bit_witness:
  "register_map_ok max30102_map \<and> state_ok max30102_map threshold_state
   \<and> (\<exists>s' st. push_sample_to_fifo max30102_map threshold_state 1 1 = Inr s'
         \<and> registers s' (REG_INTR_STATUS_1 max30102_map) = Some st \<and> st AND 0x10 = 0x10)
   \<and> (\<exists>s' st cfg. update_fifo_pointers max30102_map threshold_state = Inr s'
         \<and> fifo_buffer s' = fifo_buffer threshold_state
         \<and> registers s' (REG_INTR_STATUS_1 max30102_map) = Some st
         \<and> registers s' (REG_FIFO_CONFIG max30102_map) = Some cfg
         \<and> ((st AND 0x10 = 0x10) = (int (length (fifo_buffer threshold_state)) \<ge> cfg AND 0x0F))
         \<and> ((st AND 0x10 = 0) = (int (length (fifo_buffer threshold_state)) < cfg AND 0x0F)))"
  using max30102_map_ok threshold_state_ok
    push_sets_almost_full_bit [OF max30102_map_ok threshold_state_ok, of 1 1]
  by simp

subsection \<open>Reading the FIFO data register\<close>

text \<open>
  C8. With the read pointer \<open>rd\<close>, the write pointer \<open>wr\<close> and the overflow counter \<open>ovf\<close>
  in the register mapping, one read of the FIFO data register returns 0 and leaves the
  state, hence the read pointer, unchanged when \<open>rd = wr\<close> and \<open>ovf = 0\<close>. Otherwise, when
  \<open>rd div 6\<close> is the index of a stored six-byte record (of a FIFO within its capacity), it
  returns byte \<open>rd mod 6\<close> of record \<open>rd div 6\<close> and replaces the read pointer by
  \<open>(rd + 1) mod 192\<close>. \<^verbatim>\<open>read_register\<close> at the FIFO data address returns that byte and
  counts one read.
\<close>

theorem fifo_data_read_byte:
  assumes "registers s (REG_FIFO_RD_PTR rm) = Some rd"
    and "registers s (REG_FIFO_WR_PTR rm) = Some wr"
    and "registers s (REG_OVF_COUNTER rm) = Some ovf"
  shows "(rd = wr \<and> ovf = 0 \<longrightarrow> handle_fifo_data_read rm s = Inr (0, s))
       \<and> (\<not> (rd = wr \<and> ovf = 0) \<and> 0 \<le> rd \<and> rd div 6 < int (length (fifo_buffer s))
            \<and> int (length (fifo_buffer s)) \<le> fifo_size
            \<and> length (fifo_buffer s ! nat (rd div 6)) = 6 \<longrightarrow>
           handle_fifo_data_read rm s =
             Inr (fifo_buffer s ! nat (rd div 6) ! nat (rd mod 6),
                  s\<lparr> registers := (registers s)(REG_FIFO_RD_PTR rm \<mapsto> (rd + 1) mod 192) \<rparr>))
       \<and> (i2c_bus_available s \<and> registers s (REG_FIFO_DATA rm) \<noteq> None \<and> 0 \<le> communication_delay s \<longrightarrow>
           read_register rm s (REG_FIFO_DATA rm) =
             (case handle_fifo_data_read rm s of
                Inl e \<Rightarrow> (None, s\<lparr> errors := errors s + 1 \<rparr>)
              | Inr (b, s1) \<Rightarrow> (Some b, s1\<lparr> read_operations := read_operations s1 + 1 \<rparr>)))"
proof (intro conjI impI)
  assume "rd = wr \<and> ovf = 0"
  then show "handle_fifo_data_read rm s = Inr (0, s)"
    using assms by (simp add: handle_fifo_data_read_def)
next
  assume a: "\<not> (rd = wr \<and> ovf = 0) \<and> 0 \<le> rd \<and> rd div 6 < int (length (fifo_buffer s))
            \<and> int (length (fifo_buffer s)) \<le> fifo_size
            \<and> length (fifo_buffer s ! nat (rd div 6)) = 6"
  then have ne: "fifo_buffer s \<noteq> []" by auto
  have "0 \<le> rd" using a by simp
  then have d0: "0 \<le> rd div 6" by (rule pos_imp_zdiv_nonneg_iff [THEN iffD2, rotated]) simp
  have d1: "rd div 6 < 32" using a by (simp add: fifo_size_def)
  have si: "(rd div 6) mod 32 = rd div 6"
    using d0 d1 by simp
  have bi: "nat (rd mod 6) < 6" by simp
  have e: "(if rd = wr then (case registers s (REG_OVF_COUNTER rm) of
                            None \<Rightarrow> Inl KeyError
                          | Some ovf \<Rightarrow> Inr (ovf = 0))
                    else Inr False) = Inr False"
    using a assms(3) by auto
  show "handle_fifo_data_read rm s =
             Inr (fifo_buffer s ! nat (rd div 6) ! nat (rd mod 6),
                  s\<lparr> registers := (registers s)(REG_FIFO_RD_PTR rm \<mapsto> (rd + 1) mod 192) \<rparr>)"
    unfolding handle_fifo_data_read_def
    using ne assms(1,2) a bi
    by (simp add: e si Let_def fifo_size_def)
next
  assume "i2c_bus_available s \<and> registers s (REG_FIFO_DATA rm) \<noteq> None \<and> 0 \<le> communication_delay s"
  then show "read_register rm s (REG_FIFO_DATA rm) =
             (case handle_fifo_data_read rm s of
                Inl e \<Rightarrow> (None, s\<lparr> errors := errors s + 1 \<rparr>)
              | Inr (b, s1) \<Rightarrow> (Some b, s1\<lparr> read_operations := read_operations s1 + 1 \<rparr>))"
    by (auto simp add: read_register_def sleep_raises_def count_error_def split: sum.splits)
qed

theorem fifo_data_read_byte_witness:
  "registers fresh_state (REG_FIFO_RD_PTR max30102_map) = Some 0
   \<and> registers fresh_state (REG_FIFO_WR_PTR max30102_map) = Some 0
   \<and> registers fresh_state (REG_OVF_COUNTER max30102_map) = Some 0
   \<and> handle_fifo_data_read max30102_map fresh_state = Inr (0, fresh_state)
   \<and> registers one_record_state (REG_FIFO_RD_PTR max30102_map) = Some 0
   \<and> registers one_record_state (REG_FIFO_WR_PTR max30102_map) = Some 6
   \<and> registers one_record_state (REG_OVF_COUNTER max30102_map) = Some 0
   \<and> (0::int) div 6 < int (length (fifo_buffer one_record_state))
   \<and> int (length (fifo_buffer one_record_state)) \<le> fifo_size
   \<and> length (fifo_buffer one_record_state ! nat (0 div 6)) = 6
   \<and> i2c_bus_available one_record_state
   \<and> registers one_record_state (REG_FIFO_DATA max30102_map) \<noteq> None
   \<and> 0 \<le> communication_delay one_record_state
   \<and> handle_fifo_data_read max30102_map one_record_state =
        Inr (3, one_record_state\<lparr> registers := (registers one_record_state)(0x06 \<mapsto> 1) \<rparr>)
   \<and> read_register max30102_map one_record_state (REG_FIFO_DATA max30102_map) =
        (Some 3, one_record_state\<lparr> registers := (registers one_record_state)(0x06 \<mapsto> 1),
                                  read_operations := 1 \<rparr>)"
proof -
  have a: "registers fresh_state (REG_FIFO_RD_PTR max30102_map) = Some 0"
    "registers fresh_state (REG_FIFO_WR_PTR max30102_map) = Some 0"
    "registers fresh_state (REG_OVF_COUNTER max30102_map) = Some 0"
    by (simp_all add: fresh_state_fields max30102_map_fields)
  have b: "registers one_record_state (REG_FIFO_RD_PTR max30102_map) = Some 0"
    "registers one_record_state (REG_FIFO_WR_PTR max30102_map) = Some 6"
    "registers one_record_state (REG_OVF_COUNTER max30102_map) = Some 0"
    by (simp_all add: one_record_state_eq fresh_state_fields max30102_map_fields)
  have c: "fifo_buffer one_record_state = [[3, 13, 64, 0, 37, 28]]"
    "i2c_bus_available one_record_state"
    "registers one_record_state (REG_FIFO_DATA max30102_map) \<noteq> None"
    "0 \<le> communication_delay one_record_state"
    "read_operations one_record_state = 0"
    by (simp_all add: one_record_state_eq fresh_state_fields max30102_map_fields)
  have m: "REG_FIFO_RD_PTR max30102_map = 0x06"
    by (simp add: max30102_map_fields)
  show ?thesis
    using a b c fifo_data_read_byte [OF a] fifo_data_read_byte [OF b]
    by (simp add: fifo_size_def m)
qed

subsection \<open>Sample-rate decoding\<close>

text \<open>
  C9. When the eight sample-rate codes of the register map are pairwise different, a
  successful write of \<open>v\<close> to the SpO2 configuration register stores as sample rate the
  entry of the table for the three bits \<open>(v >> 2) & 7\<close>: 50, 100, 200, 400, 800, 1000, 1600
  and 3200 for the eight codes, and 100 for any other bit pattern. The device model's
  \<^verbatim>\<open>get_sample_rate\<close> decodes the register it holds with the same table, so after the same
  write to the device model it returns the same rate.
\<close>

theorem sample_rate_decode:
  assumes "register_map_ok rm" and "distinct (map fst (sample_rates rm))"
    and "i2c_bus_available s" and "registers s (REG_SPO2_CONFIG rm) \<noteq> None"
    and "0 \<le> communication_delay s"
  shows "(\<exists>s'. write_register rm s (REG_SPO2_CONFIG rm) v = (True, s')
            \<and> sample_rate s' = Some (dict_get (sample_rates rm) (drop_bit 2 v AND 0x07) 100))
       \<and> (\<exists>d'. dev_write_register rm d (REG_SPO2_CONFIG rm) v = Inr (True, d')
            \<and> get_sample_rate rm d' = Inr (dict_get (sample_rates rm) (drop_bit 2 v AND 0x07) 100))
       \<and> (dev_registers d (REG_SPO2_CONFIG rm) = Some c \<longrightarrow>
            get_sample_rate rm d = Inr (dict_get (sample_rates rm) (drop_bit 2 c AND 0x07) 100))
       \<and> dict_get (sample_rates rm) (SPO2_SR_50 rm) 100 = 50
       \<and> dict_get (sample_rates rm) (SPO2_SR_100 rm) 100 = 100
       \<and> dict_get (sample_rates rm) (SPO2_SR_200 rm) 100 = 200
       \<and> dict_get (sample_rates rm) (SPO2_SR_400 rm) 100 = 400
       \<and> dict_get (sample_rates rm) (SPO2_SR_800 rm) 100 = 800
       \<and> dict_get (sample_rates rm) (SPO2_SR_1000 rm) 100 = 1000
       \<and> dict_get (sample_rates rm) (SPO2_SR_1600 rm) 100 = 1600
       \<and> dict_get (sample_rates rm) (SPO2_SR_3200 rm) 100 = 3200
       \<and> (\<forall>b. b \<notin> {SPO2_SR_50 rm, SPO2_SR_100 rm, SPO2_SR_200 rm, SPO2_SR_400 rm,
                     SPO2_SR_800 rm, SPO2_SR_1000 rm, SPO2_SR_1600 rm, SPO2_SR_3200 rm} \<longrightarrow>
              dict_get (sample_rates rm) b 100 = 100)"
proof -
  have a: "\<exists>s'. write_register rm s (REG_SPO2_CONFIG rm) v = (True, s')
            \<and> sample_rate s' = Some (dict_get (sample_rates rm) (drop_bit 2 v AND 0x07) 100)"
    unfolding write_spo2_config [OF assms(1,3,4,5)] by simp
  have b: "\<exists>d'. dev_write_register rm d (REG_SPO2_CONFIG rm) v = Inr (True, d')
            \<and> get_sample_rate rm d' = Inr (dict_get (sample_rates rm) (drop_bit 2 v AND 0x07) 100)"
    unfolding dev_write_spo2_config [OF assms(1)]
    by (simp add: get_sample_rate_def and_63_7)
  have c: "dev_registers d (REG_SPO2_CONFIG rm) = Some c \<longrightarrow>
            get_sample_rate rm d = Inr (dict_get (sample_rates rm) (drop_bit 2 c AND 0x07) 100)"
    by (simp add: get_sample_rate_def)
  have e: "\<forall>b. b \<notin> {SPO2_SR_50 rm, SPO2_SR_100 rm, SPO2_SR_200 rm, SPO2_SR_400 rm,
                     SPO2_SR_800 rm, SPO2_SR_1000 rm, SPO2_SR_1600 rm, SPO2_SR_3200 rm} \<longrightarrow>
              dict_get (sample_rates rm) b 100 = 100"
    by (simp add: dict_get_def sample_rates_def)
  show ?thesis
    using a b c e sample_rates_table [OF assms(2)] by blast
qed

theorem sample_rate_decode_witness:
  "register_map_ok max30102_map \<and> distinct (map fst (sample_rates max30102_map))
   \<and> i2c_bus_available fresh_state
   \<and> registers fresh_state (REG_SPO2_CONFIG max30102_map) \<noteq> None
   \<and> 0 \<le> communication_delay fresh_state
   \<and> dev_registers fresh_device (REG_SPO2_CONFIG max30102_map) = Some 0
   \<and> drop_bit 2 (0x77::int) AND 0x07 = SPO2_SR_1000 max30102_map
   \<and> (\<exists>s'. write_register max30102_map fresh_state (REG_SPO2_CONFIG max30102_map) 0x77 = (True, s')
         \<and> sample_rate s' = Some 1000)
   \<and> (\<exists>d'. dev_write_register max30102_map fresh_device (REG_SPO2_CONFIG max30102_map) 0x77 = Inr (True, d')
         \<and> get_sample_rate max30102_map d' = Inr 1000)
   \<and> get_sample_rate max30102_map fresh_device = Inr 50"
proof -
  have a: "i2c_bus_available fresh_state"
    "registers fresh_state (REG_SPO2_CONFIG max30102_map) \<noteq> None"
    "0 \<le> communication_delay fresh_state"
    by (simp_all add: fresh_state_fields max30102_map_fields)
  have b: "dev_registers fresh_device (REG_SPO2_CONFIG max30102_map) = Some 0"
    by (simp add: fresh_device_eq max30102_map_def)
  have c: "drop_bit 2 (0x77::int) AND 0x07 = SPO2_SR_1000 max30102_map"
    "drop_bit 2 (0::int) AND 0x07 = SPO2_SR_50 max30102_map"
    by (simp_all add: max30102_map_def drop_bit_eq_div)
  have r: "dict_get (sample_rates max30102_map) 5 100 = 1000"
    "dict_get (sample_rates max30102_map) 0 100 = 50"
    by (simp_all add: dict_get_def sample_rates_def max30102_map_def)
  show ?thesis
    using a b c max30102_map_ok max30102_rates_distinct
      sample_rate_decode [OF max30102_map_ok max30102_rates_distinct a, of "0x77" fresh_device 0]
    by (simp add: r)
qed

subsection \<open>Burst access over unknown addresses\<close>

text \<open>
  C10. With the bus available, in a state that satisfies the invariant, a burst read of
  \<open>count\<close> registers succeeds whatever addresses the range holds: it returns exactly
  \<open>count\<close> values, the value at every address that is no key of the default table is the
  placeholder 0x00, and the keys of the register mapping are as before. A burst write
  reports success, skips such addresses and leaves the keys of the register mapping as
  they were, so no cell is created and no unknown address is changed.
\<close>

theorem burst_tolerates_unknown_addresses:
  assumes "register_map_ok rm" and "state_ok rm s" and "i2c_bus_available s"
  shows "(0 \<le> count \<longrightarrow>
           (\<exists>vals s'. read_registers_burst rm s start count = (Some vals, s')
              \<and> int (length vals) = count
              \<and> (\<forall>i. 0 \<le> i \<and> i < count \<and> DEFAULT_REGISTER_VALUES rm (start + i) = None \<longrightarrow>
                     vals ! nat i = 0x00)
              \<and> dom (registers s') = dom (registers s)))
       \<and> (\<exists>s'. write_registers_burst rm s start ws = (True, s')
              \<and> dom (registers s') = dom (registers s)
              \<and> (\<forall>a. DEFAULT_REGISTER_VALUES rm a = None \<longrightarrow>
                     registers s a = None \<and> registers s' a = None))"
proof (intro conjI impI)
  assume c: "0 \<le> count"
  have dl: "0 \<le> communication_delay s"
    using assms(2) by (simp add: state_ok_def)
  have "0 \<le> communication_delay s * of_int count"
    using c dl by (intro mult_nonneg_nonneg) simp_all
  then have ns: "\<not> sleep_raises (communication_delay s * of_int count)"
    by (simp add: sleep_raises_def not_less)
  obtain vals s1 where l: "burst_read_loop rm start (py_range count) s [] = (Inr vals, s1)"
    "state_ok rm s1"
    "\<forall>a. (registers s1 a = None) = (registers s a = None)"
    "length vals = length ([]::int list) + length (py_range count)"
    "\<forall>j < length (py_range count). registers s (start + py_range count ! j) = None \<longrightarrow>
        vals ! (length ([]::int list) + j) = 0"
    using burst_read_loop_ok [OF assms(1,2), of start "py_range count" "[]"] by blast
  have len: "int (length vals) = count"
    using l(4) c by (simp add: py_range_def)
  have z: "\<forall>i. 0 \<le> i \<and> i < count \<and> DEFAULT_REGISTER_VALUES rm (start + i) = None \<longrightarrow> vals ! nat i = 0"
  proof (intro allI impI)
    fix i
    assume a: "0 \<le> i \<and> i < count \<and> DEFAULT_REGISTER_VALUES rm (start + i) = None"
    then have j: "nat i < length (py_range count)"
      by (simp add: py_range_def)
    have "py_range count ! nat i = i"
      using a by (simp add: py_range_def)
    moreover have "registers s (start + i) = None"
      using a state_ok_unknown [OF assms(2)] by simp
    ultimately show "vals ! nat i = 0"
      using l(5) j by auto
  qed
  have "dom (registers s1) = dom (registers s)"
    unfolding dom_def using l(3) by simp
  then have dm: "dom (registers (s1\<lparr> read_operations := read_operations s1 + 1 \<rparr>)) = dom (registers s)"
    by simp
  have "read_registers_burst rm s start count = (Some vals, s1\<lparr> read_operations := read_operations s1 + 1 \<rparr>)"
    using assms(3) ns l(1) by (simp add: read_registers_burst_def)
  then show "\<exists>vals s'. read_registers_burst rm s start count = (Some vals, s')
              \<and> int (length vals) = count
              \<and> (\<forall>i. 0 \<le> i \<and> i < count \<and> DEFAULT_REGISTER_VALUES rm (start + i) = None \<longrightarrow>
                     vals ! nat i = 0x00)
              \<and> dom (registers s') = dom (registers s)"
    using len z dm by blast
next
  have dl: "0 \<le> communication_delay s"
    using assms(2) by (simp add: state_ok_def)
  have "0 \<le> communication_delay s * of_nat (length ws)"
    using dl by (intro mult_nonneg_nonneg) simp_all
  then have ns: "\<not> sleep_raises (communication_delay s * of_nat (length ws))"
    by (simp add: sleep_raises_def not_less)
  define s' where "s' = snd (write_registers_burst rm s start ws)"
  have w: "write_registers_burst rm s start ws = (True, s')"
    using assms(3) ns by (simp add: s'_def write_registers_burst_def Let_def)
  have ok: "state_ok rm s'"
    unfolding s'_def by (rule state_ok_write_registers_burst [OF assms(2)])
  have "dom (registers s') = dom (registers s)"
    using ok assms(2) by (simp add: state_ok_def)
  moreover have "\<forall>a. DEFAULT_REGISTER_VALUES rm a = None \<longrightarrow> registers s a = None \<and> registers s' a = None"
    using state_ok_unknown [OF ok] state_ok_unknown [OF assms(2)] by simp
  ultimately show "\<exists>s'. write_registers_burst rm s start ws = (True, s')
              \<and> dom (registers s') = dom (registers s)
              \<and> (\<forall>a. DEFAULT_REGISTER_VALUES rm a = None \<longrightarrow>
                     registers s a = None \<and> registers s' a = None)"
    using w by blast
qed

theorem burst_tolerates_unknown_addresses_witness:
  "register_map_ok max30102_map \<and> state_ok max30102_map fresh_state \<and> i2c_bus_available fresh_state
   \<and> (0::int) \<le> 3
   \<and> DEFAULT_REGISTER_VALUES max30102_map 0x0B = None
   \<and> (\<exists>vals s'. read_registers_burst max30102_map fresh_state 0x09 3 = (Some vals, s')
         \<and> int (length vals) = 3
         \<and> (\<forall>i. 0 \<le> i \<and> i < 3 \<and> DEFAULT_REGISTER_VALUES max30102_map (0x09 + i) = None \<longrightarrow>
                vals ! nat i = 0x00)
         \<and> dom (registers s') = dom (registers fresh_state))
   \<and> fst (read_registers_burst max30102_map fresh_state 0x09 3) = Some [0x03, 0x27, 0x00]
   \<and> (\<exists>s'. write_registers_burst max30102_map fresh_state 0x0A [0x20, 0x30, 0x40] = (True, s')
         \<and> dom (registers s') = dom (registers fresh_state)
         \<and> (\<forall>a. DEFAULT_REGISTER_VALUES max30102_map a = None \<longrightarrow>
                registers fresh_state a = None \<and> registers s' a = None))
   \<and> registers (snd (write_registers_burst max30102_map fresh_state 0x0A [0x20, 0x30, 0x40])) 0x0A = Some 0x20
   \<and> registers (snd (write_registers_burst max30102_map fresh_state 0x0A [0x20, 0x30, 0x40])) 0x0B = None
   \<and> registers (snd (write_registers_burst max30102_map fresh_state 0x0A [0x20, 0x30, 0x40])) 0x0C = Some 0x40"
proof -
  have a: "i2c_bus_available fresh_state"
    by (simp add: fresh_state_fields)
  have c3: "(0::int) \<le> 3" by simp
  have n: "DEFAULT_REGISTER_VALUES max30102_map 0x0B = None"
    by (simp add: max30102_map_def)
  have pr: "py_range 3 = [0, 1, 2]"
    by code_simp
  have r: "fst (read_registers_burst max30102_map fresh_state 0x09 3) = Some [0x03, 0x27, 0x00]"
    by (simp add: read_registers_burst_def pr sleep_raises_def fresh_state_fields
        max30102_map_fields)
  have w: "registers (snd (write_registers_burst max30102_map fresh_state 0x0A [0x20, 0x30, 0x40])) 0x0A = Some 0x20"
    "registers (snd (write_registers_burst max30102_map fresh_state 0x0A [0x20, 0x30, 0x40])) 0x0B = None"
    "registers (snd (write_registers_burst max30102_map fresh_state 0x0A [0x20, 0x30, 0x40])) 0x0C = Some 0x40"
    by (simp_all add: write_registers_burst_def sleep_raises_def fresh_state_fields
        max30102_map_fields Let_def)
  note rd = burst_tolerates_unknown_addresses [OF max30102_map_ok fresh_state_ok a,
      of 3 "0x09" "[]", THEN conjunct1, THEN mp, OF c3]
  note wr = burst_tolerates_unknown_addresses [OF max30102_map_ok fresh_state_ok a,
      of 3 "0x0A" "[0x20, 0x30, 0x40]", THEN conjunct2]
  from max30102_map_ok fresh_state_ok a c3 n rd r wr w
  show ?thesis
    by - (intro conjI, assumption+)
qed

end
